theory Spec2Isabelle
  imports Main "HOL-Library.Word"
begin

section \<open>Python values used by app.py\<close>

text \<open>
  A Python \<open>str\<close> is a sequence of Unicode code points: \<open>len\<close>, slicing and \<open>strip\<close> count
  code points, not bytes. A \<open>bytes\<close> value (the body of an upload, the contents of a file)
  is a sequence of 8-bit words.
\<close>

type_synonym codepoint = nat
type_synonym pystr = "codepoint list"
type_synonym byte = "8 word"
type_synonym bytes = "byte list"

text \<open>String literals of the source, written as Isabelle strings.\<close>

definition str :: "string \<Rightarrow> pystr" where
  "str s = map of_char s"

text \<open>
  The exceptions that reach the \<open>except Exception\<close> clause of \<open>process\<close>. \<open>LibraryError\<close>
  stands for whatever an external library (pdfplumber, pdf2image, PIL, pytesseract,
  python-docx, pandas) raises; it carries the text of \<open>str(e)\<close>.
\<close>

datatype exn =
    IndexError
  | UnicodeDecodeError
  | UnicodeEncodeError
  | FileNotFoundError pystr
  | IsADirectoryError pystr
  | LibraryError pystr

subsection \<open>\<open>str.strip\<close>, \<open>str.split\<close>, \<open>str.rsplit\<close>, \<open>str.join\<close>, \<open>str.lower\<close>\<close>

text \<open>
  The characters \<open>str.strip()\<close> removes are those CPython's \<open>Py_UNICODE_ISSPACE\<close> accepts:
  U+0009..U+000D, U+001C..U+0020, U+0085, U+00A0, U+1680, U+2000..U+200A, U+2028, U+2029,
  U+202F, U+205F and U+3000.
\<close>

definition py_isspace :: "codepoint \<Rightarrow> bool" where
  "py_isspace c =
     ((9 \<le> c \<and> c \<le> 13) \<or> (28 \<le> c \<and> c \<le> 32) \<or> c = 133 \<or> c = 160 \<or> c = 5760 \<or>
      (8192 \<le> c \<and> c \<le> 8202) \<or> c = 8232 \<or> c = 8233 \<or> c = 8239 \<or> c = 8287 \<or> c = 12288)"

definition py_strip :: "pystr \<Rightarrow> pystr" where
  "py_strip s = rev (dropWhile py_isspace (rev (dropWhile py_isspace s)))"

text \<open>\<open>s.split(sep)\<close> for a one-character separator: empty pieces are kept, \<open>''.split(sep) = ['']\<close>.\<close>

fun py_split :: "codepoint \<Rightarrow> pystr \<Rightarrow> pystr list" where
  "py_split sep [] = [[]]"
| "py_split sep (c # cs) =
     (if c = sep then [] # py_split sep cs
      else (case py_split sep cs of
              [] \<Rightarrow> [[c]]
            | w # ws \<Rightarrow> (c # w) # ws))"

text \<open>
  \<open>s.rsplit(sep, maxsplit)\<close> for a one-character separator. CPython scans the string from
  its right end, cutting at each separator until \<open>maxsplit\<close> cuts are made; what is left is
  the first piece. \<open>rsplit_scan\<close> walks the reversed string, \<open>cur\<close> being the piece under
  construction.
\<close>

fun rsplit_scan :: "codepoint \<Rightarrow> nat \<Rightarrow> pystr \<Rightarrow> pystr \<Rightarrow> pystr list" where
  "rsplit_scan sep n [] cur = [cur]"
| "rsplit_scan sep 0 r cur = [rev r @ cur]"
| "rsplit_scan sep (Suc n) (c # r) cur =
     (if c = sep then rsplit_scan sep n r [] @ [cur]
      else rsplit_scan sep (Suc n) r (c # cur))"

definition py_rsplit :: "codepoint \<Rightarrow> nat \<Rightarrow> pystr \<Rightarrow> pystr list" where
  "py_rsplit sep maxsplit s = rsplit_scan sep maxsplit (rev s) []"

text \<open>\<open>xs[i]\<close> for a non-negative index: \<open>IndexError\<close> out of range.\<close>

definition py_index :: "'a list \<Rightarrow> nat \<Rightarrow> exn + 'a" where
  "py_index xs i = (if i < length xs then Inr (xs ! i) else Inl IndexError)"

text \<open>\<open>sep.join(xs)\<close>.\<close>

fun py_join :: "pystr \<Rightarrow> pystr list \<Rightarrow> pystr" where
  "py_join sep [] = []"
| "py_join sep [x] = x"
| "py_join sep (x # y # ys) = x @ sep @ py_join sep (y # ys)"

text \<open>
  \<open>str.lower()\<close>. On a string of ASCII characters only, CPython maps \<open>A..Z\<close> to \<open>a..z\<close> and
  leaves the rest. On any other string it consults the Unicode case tables, which are not
  part of this repository: they are the parameter \<open>ul\<close>.
\<close>

definition ascii_lower :: "codepoint \<Rightarrow> codepoint" where
  "ascii_lower c = (if 65 \<le> c \<and> c \<le> 90 then c + 32 else c)"

definition is_ascii :: "pystr \<Rightarrow> bool" where
  "is_ascii s = list_all (\<lambda>c. c < 128) s"

definition py_lower :: "(pystr \<Rightarrow> pystr) \<Rightarrow> pystr \<Rightarrow> pystr" where
  "py_lower ul s = (if is_ascii s then map ascii_lower s else ul s)"

section \<open>The Format Gate: \<open>allowed_file\<close>\<close>

definition ALLOWED_EXTENSIONS :: "pystr set" where
  "ALLOWED_EXTENSIONS =
     {str ''pdf'', str ''png'', str ''jpg'', str ''jpeg'', str ''docx'', str ''txt''}"

definition dot :: codepoint where
  "dot = 46"

text \<open>
  \<open>return '.' in filename and filename.rsplit('.', 1)[1].lower() in ALLOWED_EXTENSIONS\<close>.
  The index is only evaluated when the left operand of \<open>and\<close> is true.
\<close>

definition allowed_file :: "(pystr \<Rightarrow> pystr) \<Rightarrow> pystr \<Rightarrow> exn + bool" where
  "allowed_file ul filename =
     (if dot \<in> set filename
      then (case py_index (py_rsplit dot 1 filename) 1 of
              Inl e \<Rightarrow> Inl e
            | Inr ext \<Rightarrow> Inr (py_lower ul ext \<in> ALLOWED_EXTENSIONS))
      else Inr False)"

section \<open>Text files: UTF-8 and newline handling\<close>

text \<open>
  \<open>open(path, 'w', encoding='utf-8')\<close> and \<open>open(path, 'r', encoding='utf-8')\<close> use Python's
  strict UTF-8 codec. Encoding fails (\<open>UnicodeEncodeError\<close>) on a surrogate code point;
  decoding fails (\<open>UnicodeDecodeError\<close>) on a byte sequence that is not well-formed UTF-8
  (a stray or missing continuation byte, an over-long form, an encoded surrogate, a value
  above U+10FFFF).
\<close>

definition utf8_encode_cp :: "codepoint \<Rightarrow> bytes option" where
  "utf8_encode_cp c =
     (if c < 0x80 then Some [of_nat c]
      else if c < 0x800 then Some [of_nat (0xC0 + c div 64), of_nat (0x80 + c mod 64)]
      else if c < 0x10000 then
        (if 0xD800 \<le> c \<and> c \<le> 0xDFFF then None
         else Some [of_nat (0xE0 + c div 4096), of_nat (0x80 + c div 64 mod 64),
                    of_nat (0x80 + c mod 64)])
      else if c < 0x110000 then
        Some [of_nat (0xF0 + c div 262144), of_nat (0x80 + c div 4096 mod 64),
              of_nat (0x80 + c div 64 mod 64), of_nat (0x80 + c mod 64)]
      else None)"

fun utf8_encode :: "pystr \<Rightarrow> bytes option" where
  "utf8_encode [] = Some []"
| "utf8_encode (c # cs) =
     (case utf8_encode_cp c of
        None \<Rightarrow> None
      | Some b \<Rightarrow> (case utf8_encode cs of None \<Rightarrow> None | Some bs \<Rightarrow> Some (b @ bs)))"

definition is_cont :: "nat \<Rightarrow> bool" where
  "is_cont b = (0x80 \<le> b \<and> b < 0xC0)"

fun utf8_dec :: "nat list \<Rightarrow> pystr option" where
  "utf8_dec [] = Some []"
| "utf8_dec (b0 # rest) =
     (if b0 < 0x80 then map_option ((#) b0) (utf8_dec rest)
      else if 0xC2 \<le> b0 \<and> b0 < 0xE0 then
        (case rest of
           b1 # r \<Rightarrow>
             if is_cont b1
             then map_option ((#) ((b0 - 0xC0) * 64 + (b1 - 0x80))) (utf8_dec r)
             else None
         | _ \<Rightarrow> None)
      else if 0xE0 \<le> b0 \<and> b0 < 0xF0 then
        (case rest of
           b1 # b2 # r \<Rightarrow>
             (let c = (b0 - 0xE0) * 4096 + (b1 - 0x80) * 64 + (b2 - 0x80)
              in if is_cont b1 \<and> is_cont b2 \<and> 0x800 \<le> c \<and> (c < 0xD800 \<or> 0xDFFF < c)
                 then map_option ((#) c) (utf8_dec r)
                 else None)
         | _ \<Rightarrow> None)
      else if 0xF0 \<le> b0 \<and> b0 < 0xF5 then
        (case rest of
           b1 # b2 # b3 # r \<Rightarrow>
             (let c = (b0 - 0xF0) * 262144 + (b1 - 0x80) * 4096 + (b2 - 0x80) * 64 + (b3 - 0x80)
              in if is_cont b1 \<and> is_cont b2 \<and> is_cont b3 \<and> 0x10000 \<le> c \<and> c < 0x110000
                 then map_option ((#) c) (utf8_dec r)
                 else None)
         | _ \<Rightarrow> None)
      else None)"

definition utf8_decode :: "bytes \<Rightarrow> pystr option" where
  "utf8_decode bs = utf8_dec (map unat bs)"

text \<open>
  Reading in text mode with the default \<open>newline=None\<close> translates \<open>\r\n\<close> and a lone \<open>\r\<close>
  into \<open>\n\<close>. Writing in text mode translates \<open>\n\<close> into \<open>os.linesep\<close>, which is \<open>\n\<close> on the
  POSIX hosts this model describes, so written text is not changed.
\<close>

definition nl :: codepoint where
  "nl = 10"

definition cr :: codepoint where
  "cr = 13"

fun universal_newlines :: "pystr \<Rightarrow> pystr" where
  "universal_newlines [] = []"
| "universal_newlines [c] = [if c = cr then nl else c]"
| "universal_newlines (c # d # ds) =
     (if c = cr \<and> d = nl then nl # universal_newlines ds
      else if c = cr then nl # universal_newlines (d # ds)
      else c # universal_newlines (d # ds))"

section \<open>The file system\<close>

text \<open>
  The two folders \<open>uploads\<close> and \<open>outputs\<close> are created when the module is loaded. The file
  system is a finite map from path strings to file contents; a path that ends in \<open>/\<close> names
  a directory and cannot be opened for writing.
\<close>

type_synonym fs = "pystr \<rightharpoonup> bytes"

definition UPLOAD_FOLDER :: pystr where
  "UPLOAD_FOLDER = str ''uploads''"

definition OUTPUT_FOLDER :: pystr where
  "OUTPUT_FOLDER = str ''outputs''"

definition slash :: codepoint where
  "slash = 47"

text \<open>\<open>os.path.join(a, b)\<close> of \<open>posixpath\<close>.\<close>

definition path_join :: "pystr \<Rightarrow> pystr \<Rightarrow> pystr" where
  "path_join a b =
     (if b \<noteq> [] \<and> hd b = slash then b
      else if a = [] \<or> last a = slash then a @ b
      else a @ [slash] @ b)"

text \<open>\<open>file.save(dst)\<close> of werkzeug's \<open>FileStorage\<close>: \<open>open(dst, 'wb')\<close>, then copy the body.\<close>

definition file_save :: "fs \<Rightarrow> pystr \<Rightarrow> bytes \<Rightarrow> exn + fs" where
  "file_save fs dst body =
     (if dst = [] then Inl (FileNotFoundError dst)
      else if last dst = slash then Inl (IsADirectoryError dst)
      else Inr (fs(dst \<mapsto> body)))"

definition read_file :: "fs \<Rightarrow> pystr \<Rightarrow> exn + bytes" where
  "read_file fs path = (case fs path of None \<Rightarrow> Inl (FileNotFoundError path) | Some b \<Rightarrow> Inr b)"

text \<open>\<open>with open(path, 'r', encoding='utf-8') as f: f.read()\<close>.\<close>

definition read_text :: "fs \<Rightarrow> pystr \<Rightarrow> exn + pystr" where
  "read_text fs path =
     (case read_file fs path of
        Inl e \<Rightarrow> Inl e
      | Inr b \<Rightarrow> (case utf8_decode b of
                   None \<Rightarrow> Inl UnicodeDecodeError
                 | Some s \<Rightarrow> Inr (universal_newlines s)))"

text \<open>
  What a write to a path leaves behind: the bytes written, or an exception together with
  the contents of the file at that moment (\<open>None\<close> when the file was not created).
\<close>

datatype write_result = Wrote bytes | WriteFailed exn "bytes option"

definition apply_write :: "fs \<Rightarrow> pystr \<Rightarrow> write_result \<Rightarrow> fs \<times> exn option" where
  "apply_write fs path r =
     (case r of
        Wrote b \<Rightarrow> (fs(path \<mapsto> b), None)
      | WriteFailed e None \<Rightarrow> (fs, Some e)
      | WriteFailed e (Some b) \<Rightarrow> (fs(path \<mapsto> b), Some e))"

text \<open>
  \<open>with open(path, 'w', encoding='utf-8') as f: f.write(text)\<close>. \<open>open\<close> creates or truncates
  the file; \<open>write\<close> encodes the whole string before anything reaches the file, so a
  string that cannot be encoded leaves the file empty.
\<close>

definition write_text :: "pystr \<Rightarrow> write_result" where
  "write_text text =
     (case utf8_encode text of
        None \<Rightarrow> WriteFailed UnicodeEncodeError (Some [])
      | Some b \<Rightarrow> Wrote b)"

definition path_exists :: "fs \<Rightarrow> pystr \<Rightarrow> bool" where
  "path_exists fs path = (fs path \<noteq> None)"

definition os_remove :: "fs \<Rightarrow> pystr \<Rightarrow> fs" where
  "os_remove fs path = fs(path := None)"

section \<open>The external libraries\<close>

text \<open>
  A page of an opened PDF, as pdfplumber presents it: its \<open>page_number\<close> and what
  \<open>page.extract_text()\<close> answers (a string, \<open>None\<close>, or an exception).
\<close>

record page =
  page_number :: nat
  extract_text :: "exn + pystr option"

text \<open>
  The libraries \<open>process\<close> calls are not part of this repository; the model takes them as
  parameters. \<open>'img\<close> is the type of PIL images. Functions that open a path receive the
  contents of the file at that path.
  \<^item> \<open>unicode_lower\<close>: \<open>str.lower()\<close> beyond ASCII;
  \<^item> \<open>secure_filename\<close>: werkzeug's function of that name;
  \<^item> \<open>pdfplumber_pages\<close>: \<open>pdfplumber.open(path).pages\<close>;
  \<^item> \<open>convert_from_path\<close>: pdf2image's function, with \<open>first_page\<close> and \<open>last_page\<close>;
  \<^item> \<open>image_open\<close>: \<open>Image.open(path)\<close>;
  \<^item> \<open>image_convert\<close>: \<open>image.convert(mode)\<close>; \<open>image_sharpen\<close>: \<open>image.filter(ImageFilter.SHARPEN)\<close>;
  \<^item> \<open>image_to_string\<close>: \<open>pytesseract.image_to_string(image, lang=lang, config=config)\<close>;
  \<^item> \<open>docx_paragraphs\<close>: the texts of \<open>Document(path).paragraphs\<close>;
  \<^item> \<open>docx_writer\<close>: \<open>d = Document(); d.add_paragraph(text); d.save(path)\<close>;
  \<^item> \<open>csv_writer\<close>: \<open>pd.DataFrame(rows, columns=columns).to_csv(path, index=False,
    encoding='utf-8-sig')\<close>.
\<close>

record 'img env =
  unicode_lower :: "pystr \<Rightarrow> pystr"
  secure_filename :: "pystr \<Rightarrow> pystr"
  pdfplumber_pages :: "bytes \<Rightarrow> exn + page list"
  convert_from_path :: "bytes \<Rightarrow> nat \<Rightarrow> nat \<Rightarrow> exn + 'img list"
  image_open :: "bytes \<Rightarrow> exn + 'img"
  image_convert :: "'img \<Rightarrow> pystr \<Rightarrow> 'img"
  image_sharpen :: "'img \<Rightarrow> 'img"
  image_to_string :: "'img \<Rightarrow> pystr \<Rightarrow> pystr \<Rightarrow> exn + pystr"
  docx_paragraphs :: "bytes \<Rightarrow> exn + pystr list"
  docx_writer :: "pystr \<Rightarrow> write_result"
  csv_writer :: "pystr list \<Rightarrow> pystr list \<Rightarrow> write_result"

text \<open>A library call on a path: the file is read first.\<close>

definition on_file :: "fs \<Rightarrow> pystr \<Rightarrow> (bytes \<Rightarrow> exn + 'a) \<Rightarrow> exn + 'a" where
  "on_file fs path f = (case read_file fs path of Inl e \<Rightarrow> Inl e | Inr b \<Rightarrow> f b)"

section \<open>Image Pre-processor and OCR Extractor\<close>

definition preprocess_image :: "'img env \<Rightarrow> 'img \<Rightarrow> 'img" where
  "preprocess_image env img = image_sharpen env (image_convert env img (str ''L''))"

definition extract_ocr :: "'img env \<Rightarrow> 'img \<Rightarrow> pystr \<Rightarrow> exn + pystr" where
  "extract_ocr env img lang = image_to_string env img lang (str ''--oem 3 --psm 3'')"

section \<open>The PDF Page Resolver: \<open>process_pdf\<close>\<close>

text \<open>
  The test \<open>content and len(content.strip()) > 20\<close>: the embedded text when the page is
  kept as it is, \<open>None\<close> when the page goes to OCR. \<open>None\<close> and the empty string are false
  in Python.
\<close>

definition usable_text :: "pystr option \<Rightarrow> pystr option" where
  "usable_text content =
     (case content of
        None \<Rightarrow> None
      | Some c \<Rightarrow> if c \<noteq> [] \<and> 20 < length (py_strip c) then Some c else None)"

text \<open>The inner loop \<open>for img in images\<close>, appending to \<open>text\<close>.\<close>

fun ocr_images :: "'img env \<Rightarrow> pystr \<Rightarrow> 'img list \<Rightarrow> pystr \<Rightarrow> exn + pystr" where
  "ocr_images env lang [] text = Inr text"
| "ocr_images env lang (img # imgs) text =
     (case extract_ocr env (preprocess_image env img) lang of
        Inl e \<Rightarrow> Inl e
      | Inr t \<Rightarrow> ocr_images env lang imgs (text @ t @ [nl]))"

text \<open>
  The loop \<open>for page in pdf.pages\<close>. Besides \<open>text\<close> the model keeps a log of the calls of
  \<open>convert_from_path\<close>, as pairs \<open>(first_page, last_page)\<close> in the order they are made, so
  that one can say which pages were rasterized.
\<close>

fun pdf_pages_loop ::
  "'img env \<Rightarrow> fs \<Rightarrow> pystr \<Rightarrow> pystr \<Rightarrow> page list \<Rightarrow> (nat \<times> nat) list \<Rightarrow> pystr \<Rightarrow>
   (nat \<times> nat) list \<times> (exn + pystr)" where
  "pdf_pages_loop env fs path lang [] log text = (log, Inr text)"
| "pdf_pages_loop env fs path lang (page # pages) log text =
     (case extract_text page of
        Inl e \<Rightarrow> (log, Inl e)
      | Inr content \<Rightarrow>
          (case usable_text content of
             Some c \<Rightarrow> pdf_pages_loop env fs path lang pages log (text @ c @ [nl])
           | None \<Rightarrow>
               (let log' = log @ [(page_number page, page_number page)] in
                case on_file fs path
                       (\<lambda>b. convert_from_path env b (page_number page) (page_number page)) of
                  Inl e \<Rightarrow> (log', Inl e)
                | Inr images \<Rightarrow>
                    (case ocr_images env lang images text of
                       Inl e \<Rightarrow> (log', Inl e)
                     | Inr text' \<Rightarrow> pdf_pages_loop env fs path lang pages log' text'))))"

definition process_pdf ::
  "'img env \<Rightarrow> fs \<Rightarrow> pystr \<Rightarrow> pystr \<Rightarrow> (nat \<times> nat) list \<times> (exn + pystr)" where
  "process_pdf env fs path lang =
     (case on_file fs path (pdfplumber_pages env) of
        Inl e \<Rightarrow> ([], Inl e)
      | Inr pages \<Rightarrow> pdf_pages_loop env fs path lang pages [] [])"

section \<open>The Request Orchestrator: \<open>process\<close>\<close>

record upload =
  upload_filename :: pystr
  upload_body :: bytes

text \<open>\<open>request.files\<close> and \<open>request.form\<close>.\<close>

record request =
  req_files :: "pystr \<rightharpoonup> upload"
  req_form :: "pystr \<rightharpoonup> pystr"

text \<open>
  What the view function hands back: the success body with status 200, \<open>{'error': msg}\<close>
  with status 400, \<open>{'error': str(e)}\<close> with status 500, or an exception that leaves the
  view function (raised outside the \<open>try\<close>).
\<close>

datatype response =
    Success (preview: pystr) (download_url: pystr) (artifact_name: pystr)
  | BadRequest pystr
  | ServerError exn
  | Unhandled exn

definition form_get :: "(pystr \<rightharpoonup> pystr) \<Rightarrow> pystr \<Rightarrow> pystr \<Rightarrow> pystr" where
  "form_get form key dflt = (case form key of None \<Rightarrow> dflt | Some v \<Rightarrow> v)"

text \<open>
  \<open>datetime.now().strftime("%Y%m%d_%H%M%S")\<close>, for a local time whose fields are in their
  ranges (a four-digit year).
\<close>

record datetime =
  year :: nat
  month :: nat
  day :: nat
  hour :: nat
  minute :: nat
  second :: nat

definition digit :: "nat \<Rightarrow> codepoint" where
  "digit n = 48 + n mod 10"

definition pad2 :: "nat \<Rightarrow> pystr" where
  "pad2 n = [digit (n div 10), digit n]"

definition strftime :: "datetime \<Rightarrow> pystr" where
  "strftime t =
     [digit (year t div 1000), digit (year t div 100), digit (year t div 10), digit (year t)]
     @ pad2 (month t) @ pad2 (day t) @ str ''_''
     @ pad2 (hour t) @ pad2 (minute t) @ pad2 (second t)"


text \<open>
  Lines 79 to 92 of app.py, the Extraction Dispatcher: the branch on the lowercase
  extension of the sanitized filename.
\<close>

definition dispatch :: "'img env \<Rightarrow> fs \<Rightarrow> pystr \<Rightarrow> pystr \<Rightarrow> pystr \<Rightarrow> exn + pystr" where
  "dispatch env fs filename input_path lang_choice =
     (case py_index (py_rsplit dot 1 filename) 1 of
        Inl e \<Rightarrow> Inl e
      | Inr suffix \<Rightarrow>
          (let ext = py_lower (unicode_lower env) suffix in
           if ext = str ''pdf'' then snd (process_pdf env fs input_path lang_choice)
           else if ext \<in> set [str ''jpg'', str ''jpeg'', str ''png''] then
             (case on_file fs input_path (image_open env) of
                Inl e \<Rightarrow> Inl e
              | Inr img \<Rightarrow> extract_ocr env (preprocess_image env img) lang_choice)
           else if ext = str ''docx'' then
             (case on_file fs input_path (docx_paragraphs env) of
                Inl e \<Rightarrow> Inl e
              | Inr paragraphs \<Rightarrow> Inr (py_join [nl] paragraphs))
           else read_text fs input_path))"

text \<open>
  Lines 103 to 113, the Output Formatter: the file system afterwards and the exception
  raised, if any. No branch is taken for any other \<open>target_format\<close>.
\<close>

definition save_output ::
  "'img env \<Rightarrow> fs \<Rightarrow> pystr \<Rightarrow> pystr \<Rightarrow> pystr \<Rightarrow> fs \<times> exn option" where
  "save_output env fs out_path target_format extracted_text =
     (if target_format = str ''txt'' then apply_write fs out_path (write_text extracted_text)
      else if target_format = str ''md'' then
        apply_write fs out_path (write_text (str ''# OCR Result'' @ [nl, nl] @ extracted_text))
      else if target_format = str ''docx'' then
        apply_write fs out_path (docx_writer env extracted_text)
      else if target_format = str ''csv'' then
        apply_write fs out_path
          (csv_writer env [str ''Content'']
             (filter (\<lambda>l. py_strip l \<noteq> []) (py_split nl extracted_text)))
      else (fs, None))"

definition out_filename :: "pystr \<Rightarrow> pystr \<Rightarrow> pystr \<Rightarrow> pystr" where
  "out_filename base_name timestamp target_format =
     base_name @ str ''_'' @ timestamp @ str ''.'' @ target_format"

text \<open>
  The body of the \<open>try\<close> with its \<open>except Exception\<close> clause (lines 78 to 124): the response
  and the file system afterwards. \<open>now\<close> is what \<open>datetime.now()\<close> answers. The \<open>print\<close> of the
  exception goes to the console and is left out.
\<close>

definition process_try ::
  "'img env \<Rightarrow> datetime \<Rightarrow> fs \<Rightarrow> pystr \<Rightarrow> pystr \<Rightarrow> pystr \<Rightarrow> pystr \<Rightarrow> response \<times> fs" where
  "process_try env now fs filename input_path target_format lang_choice =
     (case dispatch env fs filename input_path lang_choice of
        Inl e \<Rightarrow> (ServerError e, fs)
      | Inr extracted_text \<Rightarrow>
          if py_strip extracted_text = []
          then (BadRequest (str ''Could not detect any text. Ensure the image is clear.''), fs)
          else
            (case py_index (py_rsplit dot 1 filename) 0 of
               Inl e \<Rightarrow> (ServerError e, fs)
             | Inr base_name \<Rightarrow>
                 (let timestamp = strftime now;
                      name = out_filename base_name timestamp target_format;
                      out_path = path_join OUTPUT_FOLDER name
                  in case save_output env fs out_path target_format extracted_text of
                       (fs', Some e) \<Rightarrow> (ServerError e, fs')
                     | (fs', None) \<Rightarrow>
                         (Success (take 1500 extracted_text) (str ''/download/'' @ name) name,
                          fs'))))"

text \<open>The sanitized filename and the staging path of an upload (lines 74 and 75).\<close>

definition staged_filename :: "'img env \<Rightarrow> upload \<Rightarrow> pystr" where
  "staged_filename env file = secure_filename env (upload_filename file)"

definition staged_path :: "'img env \<Rightarrow> upload \<Rightarrow> pystr" where
  "staged_path env file = path_join UPLOAD_FOLDER (staged_filename env file)"

text \<open>The \<open>finally\<close> clause (lines 125 to 127).\<close>

definition cleanup :: "fs \<Rightarrow> pystr \<Rightarrow> fs" where
  "cleanup fs input_path = (if path_exists fs input_path then os_remove fs input_path else fs)"

text \<open>The view function \<open>process\<close>: the response and the file system it leaves.\<close>

definition process :: "'img env \<Rightarrow> datetime \<Rightarrow> request \<Rightarrow> fs \<Rightarrow> response \<times> fs" where
  "process env now req fs =
     (case req_files req (str ''file'') of
        None \<Rightarrow> (BadRequest (str ''No file part''), fs)
      | Some file \<Rightarrow>
          (let target_format = form_get (req_form req) (str ''format'') (str ''txt'');
               lang_choice = form_get (req_form req) (str ''lang'') (str ''eng+hin'')
           in if upload_filename file = [] then (BadRequest (str ''No selected file''), fs)
              else
                (let filename = staged_filename env file;
                     input_path = staged_path env file
                 in case file_save fs input_path (upload_body file) of
                      Inl e \<Rightarrow> (Unhandled e, fs)
                    | Inr fs1 \<Rightarrow>
                        (case process_try env now fs1 filename input_path
                                target_format lang_choice of
                           (resp, fs2) \<Rightarrow> (resp, cleanup fs2 input_path)))))"

section \<open>The PDF Page Resolver as the specification words it\<close>

text \<open>
  The first exception in list order, or all the results.
\<close>

fun collect :: "(exn + 'a) list \<Rightarrow> exn + 'a list" where
  "collect [] = Inr []"
| "collect (Inl e # rs) = Inl e"
| "collect (Inr x # rs) = (case collect rs of Inl e \<Rightarrow> Inl e | Inr xs \<Rightarrow> Inr (x # xs))"

text \<open>
  A page has a usable text layer when text was extracted from it and the text, trimmed of
  whitespace, is longer than 20 characters.
\<close>

definition has_text_layer :: "page \<Rightarrow> bool" where
  "has_text_layer p =
     (case extract_text p of
        Inl e \<Rightarrow> False
      | Inr None \<Rightarrow> False
      | Inr (Some c) \<Rightarrow> 20 < length (py_strip c))"

text \<open>
  A scanned page: rasterize that page alone, pre-process and OCR each image obtained, and
  follow each OCR output by a newline.
\<close>

definition ocr_page :: "'img env \<Rightarrow> fs \<Rightarrow> pystr \<Rightarrow> pystr \<Rightarrow> page \<Rightarrow> exn + pystr" where
  "ocr_page env fs path lang p =
     (case on_file fs path (\<lambda>b. convert_from_path env b (page_number p) (page_number p)) of
        Inl e \<Rightarrow> Inl e
      | Inr images \<Rightarrow>
          (case collect (map (\<lambda>img. extract_ocr env (preprocess_image env img) lang) images) of
             Inl e \<Rightarrow> Inl e
           | Inr outputs \<Rightarrow> Inr (concat (map (\<lambda>t. t @ [nl]) outputs))))"

text \<open>
  What one page adds to the result: its embedded text and a newline when it has a usable
  text layer, the OCR of its raster image otherwise.
\<close>

definition page_contribution ::
  "'img env \<Rightarrow> fs \<Rightarrow> pystr \<Rightarrow> pystr \<Rightarrow> page \<Rightarrow> exn + pystr" where
  "page_contribution env fs path lang p =
     (case extract_text p of
        Inl e \<Rightarrow> Inl e
      | Inr None \<Rightarrow> ocr_page env fs path lang p
      | Inr (Some c) \<Rightarrow>
          if 20 < length (py_strip c) then Inr (c @ [nl]) else ocr_page env fs path lang p)"

section \<open>A sample world\<close>

text \<open>
  To run the model on concrete requests the libraries are given small stand-ins. An image
  is represented by the text written on it, which is what OCR answers; the stand-in for a
  PDF has two pages, the first with an embedded text layer and the second without; the
  stand-in for a Word document holds one paragraph per line.
\<close>

definition underscore :: codepoint where
  "underscore = 95"

text \<open>
  werkzeug's \<open>secure_filename\<close> on POSIX: path separators become spaces, runs of whitespace
  become single underscores, every character outside \<open>A-Za-z0-9_.-\<close> is removed, and dots
  and underscores are stripped from both ends. (The real function first decomposes
  accented letters; here every non-ASCII character is removed.)
\<close>

fun split_whitespace :: "pystr \<Rightarrow> pystr \<Rightarrow> pystr list" where
  "split_whitespace cur [] = (if cur = [] then [] else [cur])"
| "split_whitespace cur (c # cs) =
     (if py_isspace c
      then (if cur = [] then split_whitespace [] cs else cur # split_whitespace [] cs)
      else split_whitespace (cur @ [c]) cs)"

definition filename_char :: "codepoint \<Rightarrow> bool" where
  "filename_char c =
     ((48 \<le> c \<and> c \<le> 57) \<or> (65 \<le> c \<and> c \<le> 90) \<or> (97 \<le> c \<and> c \<le> 122) \<or>
      c = underscore \<or> c = dot \<or> c = 45)"

definition strip_dots :: "pystr \<Rightarrow> pystr" where
  "strip_dots s =
     rev (dropWhile (\<lambda>c. c = dot \<or> c = underscore)
            (rev (dropWhile (\<lambda>c. c = dot \<or> c = underscore) s)))"

definition ascii_secure_filename :: "pystr \<Rightarrow> pystr" where
  "ascii_secure_filename name =
     strip_dots (filter filename_char
       (py_join [underscore]
          (split_whitespace [] (map (\<lambda>c. if c = slash then 32 else c) name))))"

definition sample_pages :: "page list" where
  "sample_pages =
     [\<lparr>page_number = 1,
       extract_text = Inr (Some (str ''  Minutes of the annual general meeting  ''))\<rparr>,
      \<lparr>page_number = 2, extract_text = Inr (Some (str ''p. 2''))\<rparr>]"

definition BOM :: bytes where
  "BOM = [0xEF, 0xBB, 0xBF]"

definition sample_env :: "pystr env" where
  "sample_env =
     \<lparr>unicode_lower = (\<lambda>s. s),
      secure_filename = ascii_secure_filename,
      pdfplumber_pages =
        (\<lambda>b. if b = [] then Inl (LibraryError (str ''No /Root object'')) else Inr sample_pages),
      convert_from_path = (\<lambda>b first_page last_page. Inr [str ''signed by hand'']),
      image_open =
        (\<lambda>b. case utf8_decode b of
                None \<Rightarrow> Inl (LibraryError (str ''cannot identify image file''))
              | Some s \<Rightarrow> Inr s),
      image_convert = (\<lambda>img mode. img),
      image_sharpen = (\<lambda>img. img),
      image_to_string = (\<lambda>img lang config. Inr img),
      docx_paragraphs =
        (\<lambda>b. case utf8_decode b of
                None \<Rightarrow> Inl (LibraryError (str ''File is not a zip file''))
              | Some s \<Rightarrow> Inr (py_split nl s)),
      docx_writer =
        (\<lambda>text. case utf8_encode text of
                   None \<Rightarrow> WriteFailed (LibraryError (str ''not XML compatible'')) None
                 | Some b \<Rightarrow> Wrote b),
      csv_writer =
        (\<lambda>columns rows.
           case utf8_encode (concat (map (\<lambda>l. l @ [nl]) (columns @ rows))) of
             None \<Rightarrow> WriteFailed UnicodeEncodeError (Some BOM)
           | Some b \<Rightarrow> Wrote (BOM @ b))\<rparr>"

definition ascii_bytes :: "string \<Rightarrow> bytes" where
  "ascii_bytes s = map of_char s"

text \<open>A request that uploads one file under the field \<open>file\<close> and names a target format.\<close>

definition upload_request :: "pystr \<Rightarrow> bytes \<Rightarrow> pystr \<Rightarrow> request" where
  "upload_request name body fmt =
     \<lparr>req_files = [str ''file'' \<mapsto> \<lparr>upload_filename = name, upload_body = body\<rparr>],
      req_form = [str ''format'' \<mapsto> fmt]\<rparr>"

definition sample_time :: datetime where
  "sample_time = \<lparr>year = 2024, month = 5, day = 17, hour = 9, minute = 30, second = 5\<rparr>"


section \<open>Facts about the string operations\<close>

lemma rsplit_scan_zero: "rsplit_scan sep 0 r cur = [rev r @ cur]"
  by (cases r) simp_all

lemma rsplit_scan_no_sep:
  "sep \<notin> set r \<Longrightarrow> rsplit_scan sep n r cur = [rev r @ cur]"
proof (induction r arbitrary: cur)
  case Nil
  then show ?case by simp
next
  case (Cons c r)
  then show ?case by (cases n) simp_all
qed

lemma rsplit_scan_first_sep:
  "sep \<notin> set r1 \<Longrightarrow>
   rsplit_scan sep (Suc n) (r1 @ sep # r2) cur = rsplit_scan sep n r2 [] @ [rev r1 @ cur]"
  by (induction r1 arbitrary: cur) simp_all

lemma py_rsplit_no_sep: "sep \<notin> set s \<Longrightarrow> py_rsplit sep n s = [s]"
  by (simp add: py_rsplit_def rsplit_scan_no_sep)

lemma py_rsplit_last_sep:
  assumes "sep \<notin> set suf"
  shows "py_rsplit sep (Suc 0) (pre @ sep # suf) = [pre, suf]"
proof -
  have "sep \<notin> set (rev suf)" using assms by simp
  then have "rsplit_scan sep (Suc 0) (rev suf @ sep # rev pre) [] =
             rsplit_scan sep 0 (rev pre) [] @ [rev (rev suf) @ []]"
    by (rule rsplit_scan_first_sep)
  then show ?thesis
    by (simp add: py_rsplit_def rsplit_scan_zero)
qed

lemma ascii_lower_dot: "ascii_lower c = dot \<longleftrightarrow> c = dot"
  by (auto simp: ascii_lower_def dot_def)

lemma dot_notin_allowed: "e \<in> ALLOWED_EXTENSIONS \<Longrightarrow> dot \<notin> set e"
  by (auto simp: ALLOWED_EXTENSIONS_def str_def dot_def)

section \<open>The structure of \<open>process\<close>\<close>

lemma py_rsplit1_cases:
  "(sep \<notin> set s \<and> py_rsplit sep (Suc 0) s = [s]) \<or>
   (\<exists>pre suf. s = pre @ sep # suf \<and> sep \<notin> set suf \<and> py_rsplit sep (Suc 0) s = [pre, suf])"
proof (cases "sep \<in> set s")
  case True
  then obtain pre suf where d: "s = pre @ sep # suf" "sep \<notin> set suf"
    by (meson split_list_last)
  then show ?thesis using py_rsplit_last_sep [of sep suf pre] by blast
next
  case False
  then show ?thesis by (simp add: py_rsplit_no_sep)
qed

lemma base_name_total: "\<exists>base. py_index (py_rsplit dot 1 filename) 0 = Inr base"
  using py_rsplit1_cases [of dot filename] by (auto simp: py_index_def)

lemma suffix_no_dot:
  "dot \<notin> set filename \<Longrightarrow> py_index (py_rsplit dot (Suc 0) filename) (Suc 0) = Inl IndexError"
  by (simp add: py_rsplit_no_sep py_index_def)

lemma suffix_with_dot:
  "dot \<notin> set suf \<Longrightarrow> py_index (py_rsplit dot (Suc 0) (pre @ dot # suf)) (Suc 0) = Inr suf"
  by (simp add: py_rsplit_last_sep py_index_def)

lemma base_with_dot:
  "dot \<notin> set suf \<Longrightarrow> py_index (py_rsplit dot (Suc 0) (pre @ dot # suf)) 0 = Inr pre"
  by (simp add: py_rsplit_last_sep py_index_def)

lemma dispatch_no_dot:
  "dot \<notin> set filename \<Longrightarrow> dispatch env fs filename input_path lang = Inl IndexError"
  by (simp add: dispatch_def suffix_no_dot)

lemma dispatch_Inr_dot:
  assumes "dispatch env fs filename input_path lang = Inr text"
  shows "\<exists>pre suf. filename = pre @ dot # suf \<and> dot \<notin> set suf"
proof (rule ccontr)
  assume "\<not> ?thesis"
  then have "dot \<notin> set filename" by (meson split_list_last)
  then show False using assms by (simp add: dispatch_no_dot)
qed

lemma cleanup_absent: "cleanup fs p p = None"
  by (simp add: cleanup_def path_exists_def os_remove_def)

lemma cleanup_other: "q \<noteq> p \<Longrightarrow> cleanup fs p q = fs q"
  by (simp add: cleanup_def path_exists_def os_remove_def)

lemma cleanup_eq: "cleanup fs p = fs(p := None)"
  by (auto simp: cleanup_def path_exists_def os_remove_def)

lemma file_save_Inr: "file_save fs dst body = Inr fs1 \<Longrightarrow> fs1 = fs(dst \<mapsto> body)"
  by (auto simp: file_save_def split: if_splits)

lemma process_staged:
  assumes "req_files req (str ''file'') = Some file" and "upload_filename file \<noteq> []"
    and "file_save fs (staged_path env file) (upload_body file) = Inr fs1"
  shows "process env now req fs =
           (fst (process_try env now fs1 (staged_filename env file) (staged_path env file)
                   (form_get (req_form req) (str ''format'') (str ''txt''))
                   (form_get (req_form req) (str ''lang'') (str ''eng+hin''))),
            cleanup (snd (process_try env now fs1 (staged_filename env file) (staged_path env file)
                   (form_get (req_form req) (str ''format'') (str ''txt''))
                   (form_get (req_form req) (str ''lang'') (str ''eng+hin''))))
              (staged_path env file))"
  using assms by (simp add: process_def Let_def split: prod.splits)

lemma process_try_not_unhandled:
  "fst (process_try env now fs filename input_path fmt lang) \<noteq> Unhandled e"
  by (auto simp: process_try_def Let_def split: sum.splits prod.splits option.splits)

lemma process_try_whitespace:
  assumes "dispatch env fs filename input_path lang = Inr text" and "py_strip text = []"
  shows "process_try env now fs filename input_path fmt lang =
           (BadRequest (str ''Could not detect any text. Ensure the image is clear.''), fs)"
  using assms by (simp add: process_try_def)

lemma process_try_success_inv:
  assumes "process_try env now fs filename input_path fmt lang = (Success p u n, fs')"
  shows "\<exists>text base. dispatch env fs filename input_path lang = Inr text \<and>
           py_strip text \<noteq> [] \<and>
           py_index (py_rsplit dot 1 filename) 0 = Inr base \<and>
           n = out_filename base (strftime now) fmt \<and>
           p = take 1500 text \<and> u = str ''/download/'' @ n \<and>
           save_output env fs (path_join OUTPUT_FOLDER n) fmt text = (fs', None)"
  using assms
  by (auto simp: process_try_def Let_def split: sum.splits prod.splits option.splits if_splits)

lemma process_success_inv:
  assumes "process env now req fs = (Success p u n, fs')"
  shows "\<exists>file fs1 fs2 text base.
           req_files req (str ''file'') = Some file \<and> upload_filename file \<noteq> [] \<and>
           file_save fs (staged_path env file) (upload_body file) = Inr fs1 \<and>
           dispatch env fs1 (staged_filename env file) (staged_path env file)
             (form_get (req_form req) (str ''lang'') (str ''eng+hin'')) = Inr text \<and>
           py_strip text \<noteq> [] \<and>
           py_index (py_rsplit dot 1 (staged_filename env file)) 0 = Inr base \<and>
           n = out_filename base (strftime now)
                 (form_get (req_form req) (str ''format'') (str ''txt'')) \<and>
           p = take 1500 text \<and> u = str ''/download/'' @ n \<and>
           save_output env fs1 (path_join OUTPUT_FOLDER n)
             (form_get (req_form req) (str ''format'') (str ''txt'')) text = (fs2, None) \<and>
           fs' = cleanup fs2 (staged_path env file)"
proof -
  from assms obtain upl where f: "req_files req (str ''file'') = Some upl"
    by (auto simp: process_def split: option.splits)
  from assms f have ne: "upload_filename upl \<noteq> []"
    by (auto simp: process_def Let_def split: if_splits)
  from assms f ne obtain fs1 where
    s: "file_save fs (staged_path env upl) (upload_body upl) = Inr fs1"
    by (auto simp: process_def Let_def split: sum.splits)
  let ?t = "process_try env now fs1 (staged_filename env upl) (staged_path env upl)
              (form_get (req_form req) (str ''format'') (str ''txt''))
              (form_get (req_form req) (str ''lang'') (str ''eng+hin''))"
  from process_staged [OF f ne s, of now] assms
  have "fst ?t = Success p u n" and c: "fs' = cleanup (snd ?t) (staged_path env upl)"
    by simp_all
  then have "?t = (Success p u n, snd ?t)" by (metis prod.collapse)
  from process_try_success_inv [OF this] f ne s c show ?thesis by blast
qed

section \<open>Facts about the Format Gate\<close>

lemma allowed_ascii: "e \<in> ALLOWED_EXTENSIONS \<Longrightarrow> is_ascii e"
  by (auto simp: ALLOWED_EXTENSIONS_def str_def is_ascii_def)

lemma ascii_lower_lt: "ascii_lower c < 128 \<Longrightarrow> c < 128"
  by (auto simp: ascii_lower_def split: if_splits)

lemma map_ascii_lower_ascii: "is_ascii (map ascii_lower x) \<Longrightarrow> is_ascii x"
  by (induction x) (auto simp: is_ascii_def ascii_lower_lt)

lemma allowed_file_decomposed:
  assumes "dot \<notin> set suf"
  shows "allowed_file ul (pre @ dot # suf) = Inr (py_lower ul suf \<in> ALLOWED_EXTENSIONS)"
  using assms by (simp add: allowed_file_def py_rsplit_last_sep py_index_def)

lemma last_dot_unique:
  assumes "pre @ dot # suf = pre' @ dot # suf'" "dot \<notin> set suf" "dot \<notin> set suf'"
  shows "suf = suf'"
proof -
  have "takeWhile (\<lambda>c. c \<noteq> dot) (rev (pre @ dot # suf)) = rev suf"
    using assms(2) by (simp add: takeWhile_tail) (metis takeWhile_eq_all_conv set_rev)
  moreover have "takeWhile (\<lambda>c. c \<noteq> dot) (rev (pre' @ dot # suf')) = rev suf'"
    using assms(3) by (simp add: takeWhile_tail) (metis takeWhile_eq_all_conv set_rev)
  ultimately show ?thesis using assms(1) by (metis rev_is_rev_conv)
qed

text \<open>
  Claim C3. For every filename, \<open>allowed_file\<close> returns true exactly when the filename
  contains a \<open>.\<close> and the lowercase form of what follows the final \<open>.\<close> is one of pdf, png,
  jpg, jpeg, docx, txt; it never raises. In particular it returns false for every filename
  without a \<open>.\<close>, and true for every filename that ends in \<open>.\<close> followed by an allow-listed
  extension written in any mix of upper and lower case.
\<close>

theorem allowed_file_spec:
  "allowed_file ul fn =
     Inr (\<exists>pre suf. fn = pre @ dot # suf \<and> dot \<notin> set suf \<and>
                     py_lower ul suf \<in> ALLOWED_EXTENSIONS)
   \<and> (dot \<notin> set fn \<longrightarrow> allowed_file ul fn = Inr False)
   \<and> (\<forall>x. map ascii_lower x \<in> ALLOWED_EXTENSIONS \<longrightarrow>
            allowed_file ul (base @ dot # x) = Inr True)"
proof (intro conjI allI impI)
  show "allowed_file ul fn =
     Inr (\<exists>pre suf. fn = pre @ dot # suf \<and> dot \<notin> set suf \<and>
                     py_lower ul suf \<in> ALLOWED_EXTENSIONS)"
  proof (cases "dot \<in> set fn")
    case True
    then obtain pre suf where d: "fn = pre @ dot # suf" "dot \<notin> set suf"
      by (meson split_list_last)
    have "(\<exists>pre' suf'. fn = pre' @ dot # suf' \<and> dot \<notin> set suf' \<and>
                     py_lower ul suf' \<in> ALLOWED_EXTENSIONS)
          \<longleftrightarrow> py_lower ul suf \<in> ALLOWED_EXTENSIONS"
      using d last_dot_unique by blast
    then show ?thesis using d allowed_file_decomposed [of suf ul pre] by simp
  next
    case False
    then show ?thesis by (auto simp: allowed_file_def)
  qed
next
  assume "dot \<notin> set fn"
  then show "allowed_file ul fn = Inr False" by (simp add: allowed_file_def)
next
  fix x assume a: "map ascii_lower x \<in> ALLOWED_EXTENSIONS"
  then have "is_ascii x" by (simp add: allowed_ascii map_ascii_lower_ascii)
  moreover have "dot \<notin> set x"
    using dot_notin_allowed[OF a] ascii_lower_dot [of dot] by (auto simp: image_iff)
  ultimately show "allowed_file ul (base @ dot # x) = Inr True"
    using a by (simp add: allowed_file_decomposed py_lower_def)
qed

theorem allowed_file_spec_witness:
  "dot \<notin> set (str ''README'') \<and> allowed_file id (str ''README'') = Inr False \<and>
   map ascii_lower (str ''PdF'') \<in> ALLOWED_EXTENSIONS \<and>
   allowed_file id (str ''scan.v2'' @ dot # str ''PdF'') = Inr True"
proof -
  have h1: "dot \<notin> set (str ''README'')"
    by (simp add: str_def dot_def)
  have h2: "map ascii_lower (str ''PdF'') \<in> ALLOWED_EXTENSIONS"
    by (simp add: str_def ascii_lower_def ALLOWED_EXTENSIONS_def)
  note t = allowed_file_spec [of id "str ''README''" "str ''scan.v2''"]
  from t h1 have "allowed_file id (str ''README'') = Inr False" by blast
  moreover from t h2 have "allowed_file id (str ''scan.v2'' @ dot # str ''PdF'') = Inr True"
    by blast
  ultimately show ?thesis using h1 h2 by blast
qed

section \<open>Running the sample world\<close>

lemma upload_request_file:
  "req_files (upload_request name body fmt) (str ''file'') =
     Some \<lparr>upload_filename = name, upload_body = body\<rparr>"
  by (simp add: upload_request_def)

lemma upload_request_format:
  "form_get (req_form (upload_request name body fmt)) (str ''format'') d = fmt"
  by (simp add: upload_request_def form_get_def)

lemma upload_request_lang:
  "form_get (req_form (upload_request name body fmt)) (str ''lang'') d = d"
  by (simp add: upload_request_def form_get_def str_def)

lemmas secure_filename_simps =
  staged_filename_def sample_env_def ascii_secure_filename_def str_def slash_def py_isspace_def
  filename_char_def strip_dots_def dot_def underscore_def

lemma staged_notes:
  "staged_filename sample_env \<lparr>upload_filename = str ''notes.txt'', upload_body = b\<rparr> =
     str ''notes.txt''"
  by (simp add: secure_filename_simps)

lemma staged_blank:
  "staged_filename sample_env \<lparr>upload_filename = str ''blank.txt'', upload_body = b\<rparr> =
     str ''blank.txt''"
  by (simp add: secure_filename_simps)

lemma staged_readme:
  "staged_filename sample_env \<lparr>upload_filename = str ''README'', upload_body = b\<rparr> =
     str ''README''"
  by (simp add: secure_filename_simps)

lemma uploads_path: "path_join UPLOAD_FOLDER (c # cs) =
  (if c = slash then c # cs else str ''uploads/'' @ c # cs)"
  by (simp add: path_join_def UPLOAD_FOLDER_def str_def slash_def)

lemma staged_path_notes:
  "staged_path sample_env \<lparr>upload_filename = str ''notes.txt'', upload_body = b\<rparr> =
     str ''uploads/notes.txt''"
  unfolding staged_path_def staged_notes by (simp add: str_def uploads_path slash_def)

lemma staged_path_blank:
  "staged_path sample_env \<lparr>upload_filename = str ''blank.txt'', upload_body = b\<rparr> =
     str ''uploads/blank.txt''"
  unfolding staged_path_def staged_blank by (simp add: str_def uploads_path slash_def)

lemma staged_path_readme:
  "staged_path sample_env \<lparr>upload_filename = str ''README'', upload_body = b\<rparr> =
     str ''uploads/README''"
  unfolding staged_path_def staged_readme by (simp add: str_def uploads_path slash_def)

lemma file_save_sample:
  "cs \<noteq> [] \<Longrightarrow> last cs \<noteq> slash \<Longrightarrow>
   file_save fs (str ''uploads/'' @ cs) body = Inr (fs(str ''uploads/'' @ cs \<mapsto> body))"
  by (simp add: file_save_def)

lemma read_text_sample:
  "utf8_decode b = Some s \<Longrightarrow> read_text (fs(p \<mapsto> b)) p = Inr (universal_newlines s)"
  by (simp add: read_text_def read_file_def)

lemma dispatch_txt:
  assumes "py_rsplit dot (Suc 0) filename = [base, str ''txt'']"
  shows "dispatch env fs filename input_path lang = read_text fs input_path"
  using assms
  by (simp add: dispatch_def py_index_def py_lower_def is_ascii_def)
     (simp add: str_def ascii_lower_def)

lemma rsplit_notes: "py_rsplit dot (Suc 0) (str ''notes.txt'') = [str ''notes'', str ''txt'']"
  by (simp add: py_rsplit_def str_def dot_def)

lemma rsplit_blank: "py_rsplit dot (Suc 0) (str ''blank.txt'') = [str ''blank'', str ''txt'']"
  by (simp add: py_rsplit_def str_def dot_def)

lemma decode_hello: "utf8_decode (ascii_bytes ''Hello World'') = Some (str ''Hello World'')"
  by (simp add: utf8_decode_def ascii_bytes_def str_def)

lemma encode_hello: "utf8_encode (str ''Hello World'') = Some (ascii_bytes ''Hello World'')"
  by (simp add: utf8_encode_cp_def ascii_bytes_def str_def)

lemma newlines_hello: "universal_newlines (str ''Hello World'') = str ''Hello World''"
  by (simp add: str_def cr_def nl_def)

lemma strip_hello: "py_strip (str ''Hello World'') = str ''Hello World''"
  by (simp add: py_strip_def py_isspace_def str_def)

lemma dispatch_notes:
  "dispatch sample_env (fs(str ''uploads/notes.txt'' \<mapsto> ascii_bytes ''Hello World''))
     (str ''notes.txt'') (str ''uploads/notes.txt'') lang = Inr (str ''Hello World'')"
  by (simp add: dispatch_txt [OF rsplit_notes] read_text_sample [OF decode_hello] newlines_hello)

lemma decode_blank: "utf8_decode (ascii_bytes ''  \<newline>'') = Some (str ''  \<newline>'')"
  by (simp add: utf8_decode_def ascii_bytes_def str_def)

lemma dispatch_blank:
  "dispatch sample_env (fs(str ''uploads/blank.txt'' \<mapsto> ascii_bytes ''  \<newline>''))
     (str ''blank.txt'') (str ''uploads/blank.txt'') lang = Inr (str ''  \<newline>'')"
  by (simp add: dispatch_txt [OF rsplit_blank] read_text_sample [OF decode_blank])
     (simp add: str_def cr_def nl_def)

lemma strip_blank: "py_strip (str ''  \<newline>'') = []"
  by (simp add: py_strip_def py_isspace_def str_def)

lemma strftime_sample: "strftime sample_time = str ''20240517_093005''"
  by (simp add: strftime_def sample_time_def digit_def pad2_def str_def)

section \<open>The Request Orchestrator\<close>

lemma process_try_success:
  assumes "dispatch env fs filename input_path lang = Inr text" and "py_strip text \<noteq> []"
    and "py_index (py_rsplit dot (Suc 0) filename) 0 = Inr base"
    and "save_output env fs (path_join OUTPUT_FOLDER (out_filename base (strftime now) fmt))
           fmt text = (fs', None)"
  shows "process_try env now fs filename input_path fmt lang =
           (Success (take 1500 text) (str ''/download/'' @ out_filename base (strftime now) fmt)
              (out_filename base (strftime now) fmt), fs')"
  using assms by (simp add: process_try_def Let_def)

lemma process_try_error:
  "dispatch env fs filename input_path lang = Inl e \<Longrightarrow>
   process_try env now fs filename input_path fmt lang = (ServerError e, fs)"
  by (simp add: process_try_def)

lemma cleanup_staged: "cleanup (fs(p \<mapsto> b)) p = fs(p := None)"
  by (simp add: cleanup_eq)

text \<open>
  Claim C10. A request without a file part, or whose uploaded filename is empty, is answered
  with status 400 before anything is saved: the file system the request leaves is the one
  it found.
\<close>

theorem rejected_before_staging:
  "(req_files req (str ''file'') = None \<longrightarrow>
      process env now req fs = (BadRequest (str ''No file part''), fs)) \<and>
   (\<forall>upl. req_files req (str ''file'') = Some upl \<and> upload_filename upl = [] \<longrightarrow>
      process env now req fs = (BadRequest (str ''No selected file''), fs))"
  by (simp add: process_def Let_def)

theorem rejected_before_staging_witness:
  "req_files \<lparr>req_files = Map.empty, req_form = Map.empty\<rparr> (str ''file'') = None \<and>
   process sample_env sample_time \<lparr>req_files = Map.empty, req_form = Map.empty\<rparr>
     [str ''uploads/old.txt'' \<mapsto> []] =
     (BadRequest (str ''No file part''), [str ''uploads/old.txt'' \<mapsto> []]) \<and>
   req_files (upload_request [] (ascii_bytes ''Hello World'') (str ''txt'')) (str ''file'') =
     Some \<lparr>upload_filename = [], upload_body = ascii_bytes ''Hello World''\<rparr> \<and>
   upload_filename \<lparr>upload_filename = [], upload_body = ascii_bytes ''Hello World''\<rparr> = [] \<and>
   process sample_env sample_time (upload_request [] (ascii_bytes ''Hello World'') (str ''txt''))
     [str ''uploads/old.txt'' \<mapsto> []] =
     (BadRequest (str ''No selected file''), [str ''uploads/old.txt'' \<mapsto> []])"
  using rejected_before_staging
          [of "\<lparr>req_files = Map.empty, req_form = Map.empty\<rparr>" sample_env sample_time
              "[str ''uploads/old.txt'' \<mapsto> []]"]
        rejected_before_staging
          [of "upload_request [] (ascii_bytes ''Hello World'') (str ''txt'')" sample_env
              sample_time "[str ''uploads/old.txt'' \<mapsto> []]"]
  by (simp add: upload_request_file)

text \<open>
  Claim C4. Once the upload has been saved to its staging path, no file is left at that
  path when \<open>process\<close> returns, whatever the response (success, 400 or 500); the
  exception clause catches everything, so no exception leaves the function after the save.
\<close>

theorem staged_upload_removed:
  assumes "req_files req (str ''file'') = Some upl" and "upload_filename upl \<noteq> []"
    and "file_save fs (staged_path env upl) (upload_body upl) = Inr fs1"
  shows "snd (process env now req fs) (staged_path env upl) = None \<and>
         (\<forall>e. fst (process env now req fs) \<noteq> Unhandled e)"
  by (simp add: process_staged [OF assms] cleanup_absent process_try_not_unhandled)

lemma outputs_path: "path_join OUTPUT_FOLDER (c # cs) =
  (if c = slash then c # cs else str ''outputs/'' @ c # cs)"
  by (simp add: path_join_def OUTPUT_FOLDER_def str_def slash_def)

lemma out_notes:
  "out_filename (str ''notes'') (str ''20240517_093005'') (str ''txt'') =
     str ''notes_20240517_093005.txt''"
  by (simp add: out_filename_def str_def)

lemma out_path_notes:
  "path_join OUTPUT_FOLDER (str ''notes_20240517_093005.txt'') =
     str ''outputs/notes_20240517_093005.txt''"
  by (simp add: str_def outputs_path slash_def)

lemma save_txt:
  "utf8_encode text = Some b \<Longrightarrow>
   save_output env fs out_path (str ''txt'') text = (fs(out_path \<mapsto> b), None)"
  by (simp add: save_output_def apply_write_def write_text_def)

lemma base_notes: "py_index (py_rsplit dot (Suc 0) (str ''notes.txt'')) 0 = Inr (str ''notes'')"
  by (simp add: rsplit_notes py_index_def)

lemma run_notes:
  "process sample_env sample_time
     (upload_request (str ''notes.txt'') (ascii_bytes ''Hello World'') (str ''txt'')) fs =
   (Success (str ''Hello World'') (str ''/download/notes_20240517_093005.txt'')
      (str ''notes_20240517_093005.txt''),
    cleanup (fs(str ''uploads/notes.txt'' \<mapsto> ascii_bytes ''Hello World'',
                str ''outputs/notes_20240517_093005.txt'' \<mapsto> ascii_bytes ''Hello World''))
      (str ''uploads/notes.txt''))"
proof -
  let ?u = "\<lparr>upload_filename = str ''notes.txt'', upload_body = ascii_bytes ''Hello World''\<rparr>"
  let ?fs1 = "fs(str ''uploads/notes.txt'' \<mapsto> ascii_bytes ''Hello World'')"
  have ne: "upload_filename ?u \<noteq> []" by (simp add: str_def)
  have sv: "file_save fs (staged_path sample_env ?u) (upload_body ?u) = Inr ?fs1"
    by (simp add: staged_path_notes file_save_def) (simp add: str_def slash_def)
  have sh: "py_strip (str ''Hello World'') \<noteq> []"
    unfolding strip_hello by (simp add: str_def)
  have so: "save_output sample_env ?fs1
              (path_join OUTPUT_FOLDER
                 (out_filename (str ''notes'') (strftime sample_time) (str ''txt'')))
              (str ''txt'') (str ''Hello World'') =
            (?fs1(str ''outputs/notes_20240517_093005.txt'' \<mapsto> ascii_bytes ''Hello World''),
             None)"
    by (simp add: strftime_sample out_notes out_path_notes save_txt [OF encode_hello])
  have tk: "take 1500 (str ''Hello World'') = str ''Hello World''" by (simp add: str_def)
  show ?thesis
    unfolding process_staged [OF upload_request_file ne sv]
              upload_request_format upload_request_lang staged_notes staged_path_notes
              process_try_success [OF dispatch_notes sh base_notes so]
    by (simp add: strftime_sample out_notes tk) (simp add: str_def)
qed

lemma run_blank:
  "process sample_env sample_time
     (upload_request (str ''blank.txt'') (ascii_bytes ''  \<newline>'') (str ''txt'')) fs =
   (BadRequest (str ''Could not detect any text. Ensure the image is clear.''),
    fs(str ''uploads/blank.txt'' := None))"
proof -
  let ?u = "\<lparr>upload_filename = str ''blank.txt'', upload_body = ascii_bytes ''  \<newline>''\<rparr>"
  let ?fs1 = "fs(str ''uploads/blank.txt'' \<mapsto> ascii_bytes ''  \<newline>'')"
  have ne: "upload_filename ?u \<noteq> []" by (simp add: str_def)
  have sv: "file_save fs (staged_path sample_env ?u) (upload_body ?u) = Inr ?fs1"
    by (simp add: staged_path_blank file_save_def) (simp add: str_def slash_def)
  show ?thesis
    unfolding process_staged [OF upload_request_file ne sv]
              upload_request_format upload_request_lang staged_blank staged_path_blank
              process_try_whitespace [OF dispatch_blank strip_blank]
    by (simp add: cleanup_staged)
qed

lemma run_readme:
  "process sample_env sample_time
     (upload_request (str ''README'') (ascii_bytes ''Hello World'') (str ''txt'')) fs =
   (ServerError IndexError, fs(str ''uploads/README'' := None))"
proof -
  let ?u = "\<lparr>upload_filename = str ''README'', upload_body = ascii_bytes ''Hello World''\<rparr>"
  let ?fs1 = "fs(str ''uploads/README'' \<mapsto> ascii_bytes ''Hello World'')"
  have ne: "upload_filename ?u \<noteq> []" by (simp add: str_def)
  have sv: "file_save fs (staged_path sample_env ?u) (upload_body ?u) = Inr ?fs1"
    by (simp add: staged_path_readme file_save_def) (simp add: str_def slash_def)
  have nd: "dot \<notin> set (str ''README'')" by (simp add: str_def dot_def)
  show ?thesis
    unfolding process_staged [OF upload_request_file ne sv]
              upload_request_format upload_request_lang staged_readme staged_path_readme
              process_try_error [OF dispatch_no_dot [OF nd]]
    by (simp add: cleanup_staged)
qed

theorem staged_upload_removed_witness:
  "req_files (upload_request (str ''notes.txt'') (ascii_bytes ''Hello World'') (str ''txt''))
     (str ''file'') =
     Some \<lparr>upload_filename = str ''notes.txt'', upload_body = ascii_bytes ''Hello World''\<rparr> \<and>
   str ''notes.txt'' \<noteq> [] \<and>
   file_save Map.empty (str ''uploads/notes.txt'') (ascii_bytes ''Hello World'') =
     Inr [str ''uploads/notes.txt'' \<mapsto> ascii_bytes ''Hello World''] \<and>
   snd (process sample_env sample_time
          (upload_request (str ''notes.txt'') (ascii_bytes ''Hello World'') (str ''txt''))
          Map.empty) (str ''uploads/notes.txt'') = None \<and>
   fst (process sample_env sample_time
          (upload_request (str ''notes.txt'') (ascii_bytes ''Hello World'') (str ''txt''))
          Map.empty) =
     Success (str ''Hello World'') (str ''/download/notes_20240517_093005.txt'')
       (str ''notes_20240517_093005.txt'')"
proof -
  let ?u = "\<lparr>upload_filename = str ''notes.txt'', upload_body = ascii_bytes ''Hello World''\<rparr>"
  have h1: "req_files (upload_request (str ''notes.txt'') (ascii_bytes ''Hello World'')
              (str ''txt'')) (str ''file'') = Some ?u"
    by (rule upload_request_file)
  have h2: "upload_filename ?u \<noteq> []" by (simp add: str_def)
  have h3: "file_save Map.empty (staged_path sample_env ?u) (upload_body ?u) =
              Inr [str ''uploads/notes.txt'' \<mapsto> ascii_bytes ''Hello World'']"
    by (simp add: staged_path_notes file_save_def) (simp add: str_def slash_def)
  from staged_upload_removed [OF h1 h2 h3, of sample_time] h1 h2 h3
  show ?thesis by (simp add: staged_path_notes run_notes)
qed

text \<open>
  Claim C5. When the extraction step yields text that is empty or only whitespace, the
  request is answered with status 400 and the message that no text was detected, and the
  only change to the file system is that the staged upload is gone: no artifact is
  written. A request that succeeds had extracted text that is non-empty after trimming.
\<close>

theorem whitespace_only_rejected:
  "(req_files req (str ''file'') = Some upl \<and> upload_filename upl \<noteq> [] \<and>
    file_save fs (staged_path env upl) (upload_body upl) = Inr fs1 \<and>
    dispatch env fs1 (staged_filename env upl) (staged_path env upl)
      (form_get (req_form req) (str ''lang'') (str ''eng+hin'')) = Inr text \<and>
    py_strip text = [] \<longrightarrow>
    process env now req fs =
      (BadRequest (str ''Could not detect any text. Ensure the image is clear.''),
       fs(staged_path env upl := None))) \<and>
   (process env now req fs = (Success p u n, fs') \<longrightarrow>
    (\<exists>upl' fs1' text'.
       req_files req (str ''file'') = Some upl' \<and>
       file_save fs (staged_path env upl') (upload_body upl') = Inr fs1' \<and>
       dispatch env fs1' (staged_filename env upl') (staged_path env upl')
         (form_get (req_form req) (str ''lang'') (str ''eng+hin'')) = Inr text' \<and>
       py_strip text' \<noteq> []))"
proof (intro conjI impI)
  assume a: "req_files req (str ''file'') = Some upl \<and> upload_filename upl \<noteq> [] \<and>
    file_save fs (staged_path env upl) (upload_body upl) = Inr fs1 \<and>
    dispatch env fs1 (staged_filename env upl) (staged_path env upl)
      (form_get (req_form req) (str ''lang'') (str ''eng+hin'')) = Inr text \<and>
    py_strip text = []"
  then have f: "req_files req (str ''file'') = Some upl" and ne: "upload_filename upl \<noteq> []"
    and sv: "file_save fs (staged_path env upl) (upload_body upl) = Inr fs1"
    and d: "dispatch env fs1 (staged_filename env upl) (staged_path env upl)
      (form_get (req_form req) (str ''lang'') (str ''eng+hin'')) = Inr text"
    and w: "py_strip text = []"
    by blast+
  note st = process_staged [OF f ne sv, of now]
  from sv have fs1: "fs1 = fs(staged_path env upl \<mapsto> upload_body upl)"
    by (rule file_save_Inr)
  note process_try_whitespace [OF d w]
  with st fs1 show "process env now req fs =
      (BadRequest (str ''Could not detect any text. Ensure the image is clear.''),
       fs(staged_path env upl := None))"
    by (simp add: cleanup_staged)
next
  assume "process env now req fs = (Success p u n, fs')"
  from process_success_inv [OF this]
  show "\<exists>upl' fs1' text'.
       req_files req (str ''file'') = Some upl' \<and>
       file_save fs (staged_path env upl') (upload_body upl') = Inr fs1' \<and>
       dispatch env fs1' (staged_filename env upl') (staged_path env upl')
         (form_get (req_form req) (str ''lang'') (str ''eng+hin'')) = Inr text' \<and>
       py_strip text' \<noteq> []"
    by blast
qed

theorem whitespace_only_rejected_witness:
  "process sample_env sample_time
     (upload_request (str ''blank.txt'') (ascii_bytes ''  \<newline>'') (str ''txt'')) Map.empty =
     (BadRequest (str ''Could not detect any text. Ensure the image is clear.''),
      Map.empty(str ''uploads/blank.txt'' := None)) \<and>
   process sample_env sample_time
     (upload_request (str ''notes.txt'') (ascii_bytes ''Hello World'') (str ''txt'')) Map.empty =
     (Success (str ''Hello World'') (str ''/download/notes_20240517_093005.txt'')
        (str ''notes_20240517_093005.txt''),
      cleanup [str ''uploads/notes.txt'' \<mapsto> ascii_bytes ''Hello World'',
               str ''outputs/notes_20240517_093005.txt'' \<mapsto> ascii_bytes ''Hello World'']
        (str ''uploads/notes.txt'')) \<and>
   (\<exists>upl' fs1' text'.
       req_files (upload_request (str ''notes.txt'') (ascii_bytes ''Hello World'') (str ''txt''))
         (str ''file'') = Some upl' \<and>
       file_save Map.empty (staged_path sample_env upl') (upload_body upl') = Inr fs1' \<and>
       dispatch sample_env fs1' (staged_filename sample_env upl') (staged_path sample_env upl')
         (form_get (req_form (upload_request (str ''notes.txt'') (ascii_bytes ''Hello World'')
            (str ''txt''))) (str ''lang'') (str ''eng+hin'')) = Inr text' \<and>
       py_strip text' \<noteq> [])"
proof -
  let ?b = "\<lparr>upload_filename = str ''blank.txt'', upload_body = ascii_bytes ''  \<newline>''\<rparr>"
  let ?rb = "upload_request (str ''blank.txt'') (ascii_bytes ''  \<newline>'') (str ''txt'')"
  let ?rn = "upload_request (str ''notes.txt'') (ascii_bytes ''Hello World'') (str ''txt'')"
  let ?fs1 = "[str ''uploads/blank.txt'' \<mapsto> ascii_bytes ''  \<newline>'']"
  have h1: "req_files ?rb (str ''file'') = Some ?b" by (rule upload_request_file)
  have h2: "upload_filename ?b \<noteq> []" by (simp add: str_def)
  have h3: "file_save Map.empty (staged_path sample_env ?b) (upload_body ?b) = Inr ?fs1"
    by (simp add: staged_path_blank file_save_def) (simp add: str_def slash_def)
  have h4: "dispatch sample_env ?fs1 (staged_filename sample_env ?b) (staged_path sample_env ?b)
      (form_get (req_form ?rb) (str ''lang'') (str ''eng+hin'')) = Inr (str ''  \<newline>'')"
    by (simp add: staged_blank staged_path_blank dispatch_blank)
  note t1 = whitespace_only_rejected
    [of ?rb ?b Map.empty sample_env ?fs1 "str ''  \<newline>''" sample_time]
  from t1 h1 h2 h3 h4 strip_blank
  have a: "process sample_env sample_time ?rb Map.empty =
     (BadRequest (str ''Could not detect any text. Ensure the image is clear.''),
      Map.empty(staged_path sample_env ?b := None))"
    by blast
  note t2 = whitespace_only_rejected
    [of ?rn _ Map.empty sample_env _ _ sample_time "str ''Hello World''"
        "str ''/download/notes_20240517_093005.txt''" "str ''notes_20240517_093005.txt''"
        "cleanup [str ''uploads/notes.txt'' \<mapsto> ascii_bytes ''Hello World'',
               str ''outputs/notes_20240517_093005.txt'' \<mapsto> ascii_bytes ''Hello World'']
        (str ''uploads/notes.txt'')"]
  from t2 run_notes [of Map.empty] a show ?thesis
    by (simp add: staged_path_blank)
qed

lemma save_output_other:
  assumes "fmt \<noteq> str ''txt''" "fmt \<noteq> str ''md''" "fmt \<noteq> str ''docx''" "fmt \<noteq> str ''csv''"
  shows "save_output env fs out_path fmt text = (fs, None)"
  using assms by (simp add: save_output_def)

text \<open>
  Claim C6. When the target format is none of txt, md, docx and csv and the extraction gave
  text that is not blank, \<open>process\<close> writes no artifact (the file system changes only by the
  removal of the staged upload) and still answers with the success body, whose
  \<open>download_url\<close> and \<open>filename\<close> name an artifact that was never written.
\<close>

theorem unknown_format_reports_success:
  assumes "req_files req (str ''file'') = Some upl" and "upload_filename upl \<noteq> []"
    and "file_save fs (staged_path env upl) (upload_body upl) = Inr fs1"
    and "dispatch env fs1 (staged_filename env upl) (staged_path env upl)
           (form_get (req_form req) (str ''lang'') (str ''eng+hin'')) = Inr text"
    and "py_strip text \<noteq> []"
    and "form_get (req_form req) (str ''format'') (str ''txt'') = fmt"
    and "fmt \<noteq> str ''txt''" and "fmt \<noteq> str ''md''"
    and "fmt \<noteq> str ''docx''" and "fmt \<noteq> str ''csv''"
  shows "\<exists>base name.
           py_index (py_rsplit dot 1 (staged_filename env upl)) 0 = Inr base \<and>
           name = out_filename base (strftime now) fmt \<and>
           process env now req fs =
             (Success (take 1500 text) (str ''/download/'' @ name) name,
              fs(staged_path env upl := None)) \<and>
           (fs (path_join OUTPUT_FOLDER name) = None \<longrightarrow>
            snd (process env now req fs) (path_join OUTPUT_FOLDER name) = None)"
proof -
  obtain base where b: "py_index (py_rsplit dot (Suc 0) (staged_filename env upl)) 0 = Inr base"
    using base_name_total [of "staged_filename env upl"] by auto
  let ?name = "out_filename base (strftime now) fmt"
  have so: "save_output env fs1 (path_join OUTPUT_FOLDER ?name) fmt text = (fs1, None)"
    using assms(7-10) by (rule save_output_other)
  note tr = process_try_success [OF assms(4) assms(5) b so]
  have fs1: "fs1 = fs(staged_path env upl \<mapsto> upload_body upl)"
    using assms(3) by (rule file_save_Inr)
  have p: "process env now req fs =
             (Success (take 1500 text) (str ''/download/'' @ ?name) ?name,
              fs(staged_path env upl := None))"
    unfolding process_staged [OF assms(1-3)] assms(6) tr
    by (simp add: fs1 cleanup_staged)
  then have "fs (path_join OUTPUT_FOLDER ?name) = None \<longrightarrow>
            snd (process env now req fs) (path_join OUTPUT_FOLDER ?name) = None"
    by simp
  with b p show ?thesis by simp
qed

lemma out_notes_rtf:
  "out_filename (str ''notes'') (str ''20240517_093005'') (str ''rtf'') =
     str ''notes_20240517_093005.rtf''"
  by (simp add: out_filename_def str_def)

theorem unknown_format_reports_success_witness:
  "process sample_env sample_time
     (upload_request (str ''notes.txt'') (ascii_bytes ''Hello World'') (str ''rtf'')) Map.empty =
     (Success (str ''Hello World'') (str ''/download/notes_20240517_093005.rtf'')
        (str ''notes_20240517_093005.rtf''),
      Map.empty(str ''uploads/notes.txt'' := None)) \<and>
   snd (process sample_env sample_time
     (upload_request (str ''notes.txt'') (ascii_bytes ''Hello World'') (str ''rtf'')) Map.empty)
     (str ''outputs/notes_20240517_093005.rtf'') = None"
proof -
  let ?u = "\<lparr>upload_filename = str ''notes.txt'', upload_body = ascii_bytes ''Hello World''\<rparr>"
  let ?r = "upload_request (str ''notes.txt'') (ascii_bytes ''Hello World'') (str ''rtf'')"
  let ?fs1 = "[str ''uploads/notes.txt'' \<mapsto> ascii_bytes ''Hello World'']"
  have h1: "req_files ?r (str ''file'') = Some ?u" by (rule upload_request_file)
  have h2: "upload_filename ?u \<noteq> []" by (simp add: str_def)
  have h3: "file_save Map.empty (staged_path sample_env ?u) (upload_body ?u) = Inr ?fs1"
    by (simp add: staged_path_notes file_save_def) (simp add: str_def slash_def)
  have h4: "dispatch sample_env ?fs1 (staged_filename sample_env ?u) (staged_path sample_env ?u)
      (form_get (req_form ?r) (str ''lang'') (str ''eng+hin'')) = Inr (str ''Hello World'')"
    by (simp add: staged_notes staged_path_notes dispatch_notes)
  have h5: "py_strip (str ''Hello World'') \<noteq> []"
    unfolding strip_hello by (simp add: str_def)
  have h6: "form_get (req_form ?r) (str ''format'') (str ''txt'') = str ''rtf''"
    by (rule upload_request_format)
  have h7: "str ''rtf'' \<noteq> str ''txt''" "str ''rtf'' \<noteq> str ''md''"
    "str ''rtf'' \<noteq> str ''docx''" "str ''rtf'' \<noteq> str ''csv''"
    by (simp_all add: str_def)
  have tk: "take 1500 (str ''Hello World'') = str ''Hello World''" by (simp add: str_def)
  have dl: "str ''/download/'' @ str ''notes_20240517_093005.rtf'' =
            str ''/download/notes_20240517_093005.rtf''" by (simp add: str_def)
  have op: "path_join OUTPUT_FOLDER (str ''notes_20240517_093005.rtf'') =
            str ''outputs/notes_20240517_093005.rtf''"
    by (simp add: str_def outputs_path slash_def)
  from unknown_format_reports_success [OF h1 h2 h3 h4 h5 h6 h7, of sample_time]
  show ?thesis
    by (simp add: staged_notes staged_path_notes base_notes strftime_sample out_notes_rtf tk dl op)
qed

section \<open>UTF-8: decoding inverts encoding\<close>

lemma unat_byte: "n < 256 \<Longrightarrow> unat (of_nat n :: 8 word) = n"
  by (simp add: unat_of_nat take_bit_nat_eq_self)

lemma utf8_dec_1:
  "n0 < 0x80 \<Longrightarrow> utf8_dec (n0 # rest) = map_option ((#) n0) (utf8_dec rest)"
  by simp

lemma utf8_dec_2:
  "0xC2 \<le> n0 \<Longrightarrow> n0 < 0xE0 \<Longrightarrow> is_cont n1 \<Longrightarrow>
   utf8_dec (n0 # n1 # rest) =
     map_option ((#) ((n0 - 0xC0) * 64 + (n1 - 0x80))) (utf8_dec rest)"
  by simp

lemma utf8_dec_3:
  assumes "0xE0 \<le> n0" "n0 < 0xF0" "is_cont n1" "is_cont n2"
    and "(n0 - 0xE0) * 4096 + (n1 - 0x80) * 64 + (n2 - 0x80) = c"
    and "0x800 \<le> c" "c < 0xD800 \<or> 0xDFFF < c"
  shows "utf8_dec (n0 # n1 # n2 # rest) = map_option ((#) c) (utf8_dec rest)"
  using assms by (simp add: Let_def)

lemma utf8_dec_4:
  assumes "0xF0 \<le> n0" "n0 < 0xF5" "is_cont n1" "is_cont n2" "is_cont n3"
    and "(n0 - 0xF0) * 262144 + (n1 - 0x80) * 4096 + (n2 - 0x80) * 64 + (n3 - 0x80) = c"
    and "0x10000 \<le> c" "c < 0x110000"
  shows "utf8_dec (n0 # n1 # n2 # n3 # rest) = map_option ((#) c) (utf8_dec rest)"
  using assms by (simp add: Let_def)

lemma cont_byte: "is_cont (0x80 + k mod 64)"
  by (simp add: is_cont_def)

lemma split_6_6: "(c::nat) mod 4096 = (c div 64 mod 64) * 64 + c mod 64"
  using mod_mult2_eq [of c 64 64] by simp

lemma split_12_6: "(c::nat) mod 262144 = (c div 4096 mod 64) * 4096 + c mod 4096"
  using mod_mult2_eq [of c 4096 64] by simp

lemma three_bytes_value:
  "(c::nat) div 4096 * 4096 + c div 64 mod 64 * 64 + c mod 64 = c"
  using div_mult_mod_eq [of c 4096] split_6_6 [of c] by linarith

lemma four_bytes_value:
  "(c::nat) div 262144 * 262144 + c div 4096 mod 64 * 4096 + c div 64 mod 64 * 64 + c mod 64 = c"
  using div_mult_mod_eq [of c 262144] split_12_6 [of c] split_6_6 [of c] by linarith

lemma encode_cp_decode:
  assumes "utf8_encode_cp c = Some b"
  shows "utf8_dec (map unat b @ rest) = map_option ((#) c) (utf8_dec rest)"
proof -
  consider (a) "c < 0x80" | (b) "0x80 \<le> c" "c < 0x800" | (c) "0x800 \<le> c" "c < 0x10000"
    | (d) "0x10000 \<le> c" "c < 0x110000" | (e) "0x110000 \<le> c"
    by linarith
  then show ?thesis
  proof cases
    case a
    then have "b = [of_nat c]" using assms by (simp add: utf8_encode_cp_def)
    moreover have "unat (of_nat c :: 8 word) = c" using a by (intro unat_byte) simp
    ultimately have "map unat b = [c]" by simp
    then show ?thesis using a by (simp only: append_Cons append_Nil utf8_dec_1)
  next
    case b
    define n0 where "n0 = 0xC0 + c div 64"
    define n1 where "n1 = 0x80 + c mod 64"
    have r: "n0 < 256" "n1 < 256" "0xC2 \<le> n0" "n0 < 0xE0"
      using b by (simp_all add: n0_def n1_def)
    have c1: "is_cont n1" unfolding n1_def by (rule cont_byte)
    have v: "(n0 - 0xC0) * 64 + (n1 - 0x80) = c" by (simp add: n0_def n1_def)
    from b assms have "b = [of_nat n0, of_nat n1]"
      by (simp add: utf8_encode_cp_def n0_def n1_def)
    then have "map unat b = [n0, n1]" using r by (simp add: unat_byte)
    then show ?thesis
      using utf8_dec_2 [OF r(3) r(4) c1, of rest] v by simp
  next
    case c
    with assms have ns: "c < 0xD800 \<or> 0xDFFF < c"
      by (auto simp: utf8_encode_cp_def split: if_splits)
    define n0 where "n0 = 0xE0 + c div 4096"
    define n1 where "n1 = 0x80 + c div 64 mod 64"
    define n2 where "n2 = 0x80 + c mod 64"
    have r: "n0 < 256" "n1 < 256" "n2 < 256" "0xE0 \<le> n0" "n0 < 0xF0"
      using c by (simp_all add: n0_def n1_def n2_def)
    have c1: "is_cont n1" "is_cont n2" unfolding n1_def n2_def by (rule cont_byte)+
    have v: "(n0 - 0xE0) * 4096 + (n1 - 0x80) * 64 + (n2 - 0x80) = c"
      unfolding n0_def n1_def n2_def using three_bytes_value [of c] by simp
    from c assms ns have "b = [of_nat n0, of_nat n1, of_nat n2]"
      by (auto simp: utf8_encode_cp_def n0_def n1_def n2_def split: if_splits)
    then have "map unat b = [n0, n1, n2]" using r by (simp add: unat_byte)
    then show ?thesis
      using utf8_dec_3 [OF r(4) r(5) c1 v c(1) ns, of rest] by simp
  next
    case d
    define n0 where "n0 = 0xF0 + c div 262144"
    define n1 where "n1 = 0x80 + c div 4096 mod 64"
    define n2 where "n2 = 0x80 + c div 64 mod 64"
    define n3 where "n3 = 0x80 + c mod 64"
    have r: "n0 < 256" "n1 < 256" "n2 < 256" "n3 < 256" "0xF0 \<le> n0" "n0 < 0xF5"
      using d by (simp_all add: n0_def n1_def n2_def n3_def)
    have c1: "is_cont n1" "is_cont n2" "is_cont n3"
      unfolding n1_def n2_def n3_def by (rule cont_byte)+
    have v: "(n0 - 0xF0) * 262144 + (n1 - 0x80) * 4096 + (n2 - 0x80) * 64 + (n3 - 0x80) = c"
      unfolding n0_def n1_def n2_def n3_def using four_bytes_value [of c] by simp
    from d assms have "b = [of_nat n0, of_nat n1, of_nat n2, of_nat n3]"
      by (auto simp: utf8_encode_cp_def n0_def n1_def n2_def n3_def split: if_splits)
    then have "map unat b = [n0, n1, n2, n3]" using r by (simp add: unat_byte)
    then show ?thesis
      using utf8_dec_4 [OF r(5) r(6) c1 v d, of rest] by simp
  next
    case e
    then show ?thesis using assms by (simp add: utf8_encode_cp_def)
  qed
qed

lemma utf8_roundtrip: "utf8_encode s = Some b \<Longrightarrow> utf8_decode b = Some s"
proof (induction s arbitrary: b)
  case Nil
  then show ?case by (simp add: utf8_decode_def)
next
  case (Cons c s)
  then obtain b1 b2 where e: "utf8_encode_cp c = Some b1" "utf8_encode s = Some b2" "b = b1 @ b2"
    by (auto split: option.splits)
  from Cons.IH [OF e(2)] have "utf8_dec (map unat b2) = Some s" by (simp add: utf8_decode_def)
  then show ?case using encode_cp_decode [OF e(1), of "map unat b2"] e(3)
    by (simp add: utf8_decode_def)
qed

section \<open>The Output Formatter\<close>

lemma process_success:
  assumes "req_files req (str ''file'') = Some upl" and "upload_filename upl \<noteq> []"
    and "file_save fs (staged_path env upl) (upload_body upl) = Inr fs1"
    and "dispatch env fs1 (staged_filename env upl) (staged_path env upl)
           (form_get (req_form req) (str ''lang'') (str ''eng+hin'')) = Inr text"
    and "py_strip text \<noteq> []"
    and "py_index (py_rsplit dot (Suc 0) (staged_filename env upl)) 0 = Inr base"
    and "form_get (req_form req) (str ''format'') (str ''txt'') = fmt"
    and "save_output env fs1 (path_join OUTPUT_FOLDER (out_filename base (strftime now) fmt))
           fmt text = (fs2, None)"
  shows "process env now req fs =
           (Success (take 1500 text) (str ''/download/'' @ out_filename base (strftime now) fmt)
              (out_filename base (strftime now) fmt),
            cleanup fs2 (staged_path env upl))"
  unfolding process_staged [OF assms(1-3)] assms(7)
            process_try_success [OF assms(4) assms(5) assms(6) assms(8)]
  by simp

lemma out_path_not_staged:
  assumes "dot \<notin> set suf"
  shows "path_join OUTPUT_FOLDER (out_filename pre ts fmt) \<noteq>
         path_join UPLOAD_FOLDER (pre @ dot # suf)"
proof (cases pre)
  case Nil
  then show ?thesis
    by (simp add: out_filename_def path_join_def OUTPUT_FOLDER_def UPLOAD_FOLDER_def str_def
                  slash_def dot_def)
next
  case (Cons c pre')
  then show ?thesis
    by (simp add: out_filename_def outputs_path uploads_path)
       (simp add: str_def dot_def)
qed

lemma artifact_survives_cleanup:
  assumes "dispatch env fs1 filename input_path lang = Inr text"
    and "py_index (py_rsplit dot (Suc 0) filename) 0 = Inr base"
  shows "cleanup fs2 (path_join UPLOAD_FOLDER filename)
           (path_join OUTPUT_FOLDER (out_filename base ts fmt)) =
         fs2 (path_join OUTPUT_FOLDER (out_filename base ts fmt))"
proof -
  from dispatch_Inr_dot [OF assms(1)] obtain pre suf where
    d: "filename = pre @ dot # suf" "dot \<notin> set suf" by blast
  with assms(2) have "base = pre" by (simp add: base_with_dot)
  with d show ?thesis by (simp add: cleanup_other out_path_not_staged)
qed

lemma save_txt_inv:
  assumes "save_output env fs out_path (str ''txt'') text = (fs2, None)"
  shows "\<exists>b. utf8_encode text = Some b \<and> fs2 = fs(out_path \<mapsto> b)"
  using assms
  by (auto simp: save_output_def apply_write_def write_text_def split: option.splits)

text \<open>
  Claim C7. For target format txt, the artifact of a successful request holds exactly the
  UTF-8 encoding of the extracted text, and decoding the artifact as UTF-8 gives the
  extracted text back.
\<close>

theorem txt_artifact_holds_text:
  assumes "process env now req fs = (Success p u n, fs')"
    and "form_get (req_form req) (str ''format'') (str ''txt'') = str ''txt''"
  shows "\<exists>upl fs1 text b.
           req_files req (str ''file'') = Some upl \<and>
           file_save fs (staged_path env upl) (upload_body upl) = Inr fs1 \<and>
           dispatch env fs1 (staged_filename env upl) (staged_path env upl)
             (form_get (req_form req) (str ''lang'') (str ''eng+hin'')) = Inr text \<and>
           utf8_encode text = Some b \<and>
           fs' (path_join OUTPUT_FOLDER n) = Some b \<and>
           utf8_decode b = Some text"
proof -
  from process_success_inv [OF assms(1)] obtain upl fs1 fs2 tx base where
    f: "req_files req (str ''file'') = Some upl"
    and sv: "file_save fs (staged_path env upl) (upload_body upl) = Inr fs1"
    and d: "dispatch env fs1 (staged_filename env upl) (staged_path env upl)
             (form_get (req_form req) (str ''lang'') (str ''eng+hin'')) = Inr tx"
    and b: "py_index (py_rsplit dot 1 (staged_filename env upl)) 0 = Inr base"
    and n: "n = out_filename base (strftime now)
                 (form_get (req_form req) (str ''format'') (str ''txt''))"
    and so: "save_output env fs1 (path_join OUTPUT_FOLDER n)
             (form_get (req_form req) (str ''format'') (str ''txt'')) tx = (fs2, None)"
    and c: "fs' = cleanup fs2 (staged_path env upl)"
    by blast
  from so assms(2) obtain bs where
    e: "utf8_encode tx = Some bs" and fs2: "fs2 = fs1(path_join OUTPUT_FOLDER n \<mapsto> bs)"
    using save_txt_inv by metis
  from b have b': "py_index (py_rsplit dot (Suc 0) (staged_filename env upl)) 0 = Inr base"
    by simp
  have "fs' (path_join OUTPUT_FOLDER n) = fs2 (path_join OUTPUT_FOLDER n)"
    unfolding c n staged_path_def by (rule artifact_survives_cleanup [OF d b'])
  with fs2 have "fs' (path_join OUTPUT_FOLDER n) = Some bs" by simp
  with f sv d e utf8_roundtrip [OF e] show ?thesis by blast
qed

theorem txt_artifact_holds_text_witness:
  "process sample_env sample_time
     (upload_request (str ''notes.txt'') (ascii_bytes ''Hello World'') (str ''txt'')) Map.empty =
     (Success (str ''Hello World'') (str ''/download/notes_20240517_093005.txt'')
        (str ''notes_20240517_093005.txt''),
      cleanup [str ''uploads/notes.txt'' \<mapsto> ascii_bytes ''Hello World'',
               str ''outputs/notes_20240517_093005.txt'' \<mapsto> ascii_bytes ''Hello World'']
        (str ''uploads/notes.txt'')) \<and>
   form_get (req_form (upload_request (str ''notes.txt'') (ascii_bytes ''Hello World'')
     (str ''txt''))) (str ''format'') (str ''txt'') = str ''txt'' \<and>
   (\<exists>text b.
      utf8_encode text = Some b \<and>
      cleanup [str ''uploads/notes.txt'' \<mapsto> ascii_bytes ''Hello World'',
               str ''outputs/notes_20240517_093005.txt'' \<mapsto> ascii_bytes ''Hello World'']
        (str ''uploads/notes.txt'') (str ''outputs/notes_20240517_093005.txt'') = Some b \<and>
      utf8_decode b = Some text)"
proof -
  note r = run_notes [of Map.empty]
  have h: "form_get (req_form (upload_request (str ''notes.txt'') (ascii_bytes ''Hello World'')
     (str ''txt''))) (str ''format'') (str ''txt'') = str ''txt''"
    by (rule upload_request_format)
  from txt_artifact_holds_text [OF r h] r h show ?thesis
    by (auto simp: out_path_notes)
qed

section \<open>Lines of a text\<close>

lemma py_split_nonempty: "py_split sep s \<noteq> []"
  by (induction s) (auto split: list.splits)

lemma py_split_no_sep: "l \<in> set (py_split sep s) \<Longrightarrow> sep \<notin> set l"
proof (induction s arbitrary: l)
  case Nil
  then show ?case by simp
next
  case (Cons c s)
  show ?case
  proof (cases "c = sep")
    case True
    with Cons show ?thesis by auto
  next
    case False
    obtain w ws where p: "py_split sep s = w # ws"
      using py_split_nonempty [of sep s] by (cases "py_split sep s") auto
    with Cons.prems False have "l = c # w \<or> l \<in> set ws" by simp
    then show ?thesis
    proof
      assume "l = c # w"
      moreover have "sep \<notin> set w" using Cons.IH [of w] p by simp
      ultimately show ?thesis using False by auto
    next
      assume "l \<in> set ws"
      then show ?thesis using Cons.IH [of l] p by simp
    qed
  qed
qed

lemma py_join_Cons: "ws \<noteq> [] \<Longrightarrow> py_join sep (w # ws) = w @ sep @ py_join sep ws"
  by (cases ws) simp_all

lemma py_join_Cons_char:
  "py_join sep ((c # w) # ws) = c # py_join sep (w # ws)"
  by (cases ws) simp_all

lemma py_join_split: "py_join [sep] (py_split sep s) = s"
proof (induction s)
  case Nil
  then show ?case by simp
next
  case (Cons c s)
  obtain w ws where p: "py_split sep s = w # ws"
    using py_split_nonempty [of sep s] by (cases "py_split sep s") auto
  show ?case
  proof (cases "c = sep")
    case True
    then show ?thesis using Cons py_split_nonempty [of sep s] by (simp add: py_join_Cons)
  next
    case False
    then show ?thesis using Cons p by (simp add: py_join_Cons_char)
  qed
qed

lemma save_csv_inv:
  assumes "save_output env fs out_path (str ''csv'') text = (fs2, None)"
  shows "\<exists>b. csv_writer env [str ''Content'']
                (filter (\<lambda>l. py_strip l \<noteq> []) (py_split nl text)) = Wrote b \<and>
             fs2 = fs(out_path \<mapsto> b)"
proof -
  have ne: "str ''csv'' \<noteq> str ''txt''" "str ''csv'' \<noteq> str ''md''" "str ''csv'' \<noteq> str ''docx''"
    by (simp_all add: str_def)
  from assms show ?thesis
    by (simp add: save_output_def ne apply_write_def
             split: write_result.splits option.splits)
qed

text \<open>
  Claim C8. For target format csv, the artifact of a successful request is what the CSV
  writer produces for the single column \<open>Content\<close> and one row per line of the extracted
  text that is not blank after trimming, in the order of the text. The lines are the
  pieces of the text between newlines; the number of rows is the number of non-blank
  lines, and no row is blank.
\<close>

theorem csv_rows_are_nonblank_lines:
  assumes "process env now req fs = (Success p u n, fs')"
    and "form_get (req_form req) (str ''format'') (str ''txt'') = str ''csv''"
  shows "\<exists>upl fs1 text lines rows b.
           req_files req (str ''file'') = Some upl \<and>
           file_save fs (staged_path env upl) (upload_body upl) = Inr fs1 \<and>
           dispatch env fs1 (staged_filename env upl) (staged_path env upl)
             (form_get (req_form req) (str ''lang'') (str ''eng+hin'')) = Inr text \<and>
           lines = py_split nl text \<and>
           py_join [nl] lines = text \<and> (\<forall>l \<in> set lines. nl \<notin> set l) \<and>
           rows = filter (\<lambda>l. py_strip l \<noteq> []) lines \<and>
           length rows = card {i. i < length lines \<and> py_strip (lines ! i) \<noteq> []} \<and>
           (\<forall>r \<in> set rows. py_strip r \<noteq> []) \<and>
           csv_writer env [str ''Content''] rows = Wrote b \<and>
           fs' (path_join OUTPUT_FOLDER n) = Some b"
proof -
  from process_success_inv [OF assms(1)] obtain upl fs1 fs2 tx base where
    f: "req_files req (str ''file'') = Some upl"
    and sv: "file_save fs (staged_path env upl) (upload_body upl) = Inr fs1"
    and d: "dispatch env fs1 (staged_filename env upl) (staged_path env upl)
             (form_get (req_form req) (str ''lang'') (str ''eng+hin'')) = Inr tx"
    and b: "py_index (py_rsplit dot 1 (staged_filename env upl)) 0 = Inr base"
    and n: "n = out_filename base (strftime now)
                 (form_get (req_form req) (str ''format'') (str ''txt''))"
    and so: "save_output env fs1 (path_join OUTPUT_FOLDER n)
             (form_get (req_form req) (str ''format'') (str ''txt'')) tx = (fs2, None)"
    and c: "fs' = cleanup fs2 (staged_path env upl)"
    by blast
  let ?lines = "py_split nl tx"
  let ?rows = "filter (\<lambda>l. py_strip l \<noteq> []) ?lines"
  from so assms(2) obtain bs where
    w: "csv_writer env [str ''Content''] ?rows = Wrote bs"
    and fs2: "fs2 = fs1(path_join OUTPUT_FOLDER n \<mapsto> bs)"
    using save_csv_inv by metis
  from b have b': "py_index (py_rsplit dot (Suc 0) (staged_filename env upl)) 0 = Inr base"
    by simp
  have "fs' (path_join OUTPUT_FOLDER n) = fs2 (path_join OUTPUT_FOLDER n)"
    unfolding c n staged_path_def by (rule artifact_survives_cleanup [OF d b'])
  with fs2 have a: "fs' (path_join OUTPUT_FOLDER n) = Some bs" by simp
  have j: "py_join [nl] ?lines = tx" by (rule py_join_split)
  have s: "\<forall>l \<in> set ?lines. nl \<notin> set l" by (simp add: py_split_no_sep)
  have l: "length ?rows = card {i. i < length ?lines \<and> py_strip (?lines ! i) \<noteq> []}"
    by (rule length_filter_conv_card)
  have r: "\<forall>r \<in> set ?rows. py_strip r \<noteq> []" by simp
  from f sv d j s l r w a show ?thesis by blast
qed

lemma staged_lines:
  "staged_filename sample_env \<lparr>upload_filename = str ''lines.txt'', upload_body = b\<rparr> =
     str ''lines.txt''"
  by (simp add: secure_filename_simps)

lemma staged_path_lines:
  "staged_path sample_env \<lparr>upload_filename = str ''lines.txt'', upload_body = b\<rparr> =
     str ''uploads/lines.txt''"
  unfolding staged_path_def staged_lines by (simp add: str_def uploads_path slash_def)

lemma rsplit_lines: "py_rsplit dot (Suc 0) (str ''lines.txt'') = [str ''lines'', str ''txt'']"
  by (simp add: py_rsplit_def str_def dot_def)

lemma decode_lines:
  "utf8_decode (ascii_bytes ''line1\<newline>\<newline>line2'') = Some (str ''line1\<newline>\<newline>line2'')"
  by (simp add: utf8_decode_def ascii_bytes_def str_def)

lemma dispatch_lines:
  "dispatch sample_env (fs(str ''uploads/lines.txt'' \<mapsto> ascii_bytes ''line1\<newline>\<newline>line2''))
     (str ''lines.txt'') (str ''uploads/lines.txt'') lang = Inr (str ''line1\<newline>\<newline>line2'')"
  by (simp add: dispatch_txt [OF rsplit_lines] read_text_sample [OF decode_lines])
     (simp add: str_def cr_def nl_def)

lemma split_lines:
  "py_split nl (str ''line1\<newline>\<newline>line2'') = [str ''line1'', [], str ''line2'']"
  by (simp add: str_def nl_def)

lemma rows_lines:
  "filter (\<lambda>l. py_strip l \<noteq> []) [str ''line1'', [], str ''line2''] =
     [str ''line1'', str ''line2'']"
  by (simp add: py_strip_def py_isspace_def str_def)

lemma csv_lines:
  "csv_writer sample_env [str ''Content''] [str ''line1'', str ''line2''] =
     Wrote (BOM @ ascii_bytes ''Content\<newline>line1\<newline>line2\<newline>'')"
  by (simp add: sample_env_def str_def nl_def utf8_encode_cp_def ascii_bytes_def)

lemma save_lines:
  "save_output sample_env fs out_path (str ''csv'') (str ''line1\<newline>\<newline>line2'') =
     (fs(out_path \<mapsto> BOM @ ascii_bytes ''Content\<newline>line1\<newline>line2\<newline>''), None)"
proof -
  have ne: "str ''csv'' \<noteq> str ''txt''" "str ''csv'' \<noteq> str ''md''" "str ''csv'' \<noteq> str ''docx''"
    by (simp_all add: str_def)
  show ?thesis
    unfolding save_output_def split_lines rows_lines csv_lines
    by (simp add: ne apply_write_def)
qed

lemma run_lines:
  "process sample_env sample_time
     (upload_request (str ''lines.txt'') (ascii_bytes ''line1\<newline>\<newline>line2'') (str ''csv''))
     Map.empty =
   (Success (str ''line1\<newline>\<newline>line2'') (str ''/download/lines_20240517_093005.csv'')
      (str ''lines_20240517_093005.csv''),
    cleanup [str ''uploads/lines.txt'' \<mapsto> ascii_bytes ''line1\<newline>\<newline>line2'',
             str ''outputs/lines_20240517_093005.csv'' \<mapsto>
               BOM @ ascii_bytes ''Content\<newline>line1\<newline>line2\<newline>'']
      (str ''uploads/lines.txt''))"
proof -
  let ?u = "\<lparr>upload_filename = str ''lines.txt'',
             upload_body = ascii_bytes ''line1\<newline>\<newline>line2''\<rparr>"
  let ?r = "upload_request (str ''lines.txt'') (ascii_bytes ''line1\<newline>\<newline>line2'') (str ''csv'')"
  let ?fs1 = "[str ''uploads/lines.txt'' \<mapsto> ascii_bytes ''line1\<newline>\<newline>line2'']"
  have h1: "req_files ?r (str ''file'') = Some ?u" by (rule upload_request_file)
  have h2: "upload_filename ?u \<noteq> []" by (simp add: str_def)
  have h3: "file_save Map.empty (staged_path sample_env ?u) (upload_body ?u) = Inr ?fs1"
    by (simp add: staged_path_lines file_save_def) (simp add: str_def slash_def)
  have h4: "dispatch sample_env ?fs1 (staged_filename sample_env ?u) (staged_path sample_env ?u)
      (form_get (req_form ?r) (str ''lang'') (str ''eng+hin'')) = Inr (str ''line1\<newline>\<newline>line2'')"
    by (simp add: staged_lines staged_path_lines dispatch_lines)
  have h5: "py_strip (str ''line1\<newline>\<newline>line2'') \<noteq> []"
    by (simp add: py_strip_def py_isspace_def str_def)
  have h6: "py_index (py_rsplit dot (Suc 0) (staged_filename sample_env ?u)) 0 =
              Inr (str ''lines'')"
    by (simp add: staged_lines rsplit_lines py_index_def)
  have h7: "form_get (req_form ?r) (str ''format'') (str ''txt'') = str ''csv''"
    by (rule upload_request_format)
  have nm: "out_filename (str ''lines'') (strftime sample_time) (str ''csv'') =
              str ''lines_20240517_093005.csv''"
    by (simp add: strftime_sample out_filename_def) (simp add: str_def)
  have op: "path_join OUTPUT_FOLDER (str ''lines_20240517_093005.csv'') =
              str ''outputs/lines_20240517_093005.csv''"
    by (simp add: str_def outputs_path slash_def)
  have tk: "take 1500 (str ''line1\<newline>\<newline>line2'') = str ''line1\<newline>\<newline>line2''"
    by (simp add: str_def)
  have dl: "str ''/download/'' @ str ''lines_20240517_093005.csv'' =
              str ''/download/lines_20240517_093005.csv''" by (simp add: str_def)
  have h8: "save_output sample_env ?fs1
              (path_join OUTPUT_FOLDER
                 (out_filename (str ''lines'') (strftime sample_time) (str ''csv'')))
              (str ''csv'') (str ''line1\<newline>\<newline>line2'') =
            (?fs1(str ''outputs/lines_20240517_093005.csv'' \<mapsto>
                    BOM @ ascii_bytes ''Content\<newline>line1\<newline>line2\<newline>''), None)"
    unfolding nm op by (rule save_lines)
  from process_success [OF h1 h2 h3 h4 h5 h6 h7 h8]
  show ?thesis by (simp add: nm tk dl staged_path_lines)
qed

theorem csv_rows_are_nonblank_lines_witness:
  "process sample_env sample_time
     (upload_request (str ''lines.txt'') (ascii_bytes ''line1\<newline>\<newline>line2'') (str ''csv''))
     Map.empty =
   (Success (str ''line1\<newline>\<newline>line2'') (str ''/download/lines_20240517_093005.csv'')
      (str ''lines_20240517_093005.csv''),
    cleanup [str ''uploads/lines.txt'' \<mapsto> ascii_bytes ''line1\<newline>\<newline>line2'',
             str ''outputs/lines_20240517_093005.csv'' \<mapsto>
               BOM @ ascii_bytes ''Content\<newline>line1\<newline>line2\<newline>'']
      (str ''uploads/lines.txt'')) \<and>
   form_get (req_form (upload_request (str ''lines.txt'')
     (ascii_bytes ''line1\<newline>\<newline>line2'') (str ''csv''))) (str ''format'') (str ''txt'') =
     str ''csv'' \<and>
   (\<exists>text rows b.
      rows = filter (\<lambda>l. py_strip l \<noteq> []) (py_split nl text) \<and>
      length rows = card {i. i < length (py_split nl text) \<and>
                             py_strip (py_split nl text ! i) \<noteq> []} \<and>
      csv_writer sample_env [str ''Content''] rows = Wrote b \<and>
      cleanup [str ''uploads/lines.txt'' \<mapsto> ascii_bytes ''line1\<newline>\<newline>line2'',
               str ''outputs/lines_20240517_093005.csv'' \<mapsto>
                 BOM @ ascii_bytes ''Content\<newline>line1\<newline>line2\<newline>'']
        (str ''uploads/lines.txt'') (str ''outputs/lines_20240517_093005.csv'') = Some b)"
proof -
  have h: "form_get (req_form (upload_request (str ''lines.txt'')
     (ascii_bytes ''line1\<newline>\<newline>line2'') (str ''csv''))) (str ''format'') (str ''txt'') =
     str ''csv''"
    by (rule upload_request_format)
  have op: "path_join OUTPUT_FOLDER (str ''lines_20240517_093005.csv'') =
              str ''outputs/lines_20240517_093005.csv''"
    by (simp add: str_def outputs_path slash_def)
  from csv_rows_are_nonblank_lines [OF run_lines h] run_lines h show ?thesis
    unfolding op by blast
qed

section \<open>Artifact names\<close>























section \<open>The Extraction Dispatcher\<close>

lemma dispatch_other_extension:
  assumes "dot \<notin> set suf"
    and "py_lower (unicode_lower env) suf \<noteq> str ''pdf''"
    and "py_lower (unicode_lower env) suf \<notin> set [str ''jpg'', str ''jpeg'', str ''png'']"
    and "py_lower (unicode_lower env) suf \<noteq> str ''docx''"
  shows "dispatch env fs (pre @ dot # suf) input_path lang = read_text fs input_path"
  using assms(2-4) unfolding dispatch_def
  by (simp add: suffix_with_dot [OF assms(1)] Let_def)

text \<open>
  Claim C2 says that an upload whose sanitized name has no \<open>.\<close> at all is read as UTF-8
  text. The code does not reach the plain-text branch for such a name: the expression
  \<open>filename.rsplit('.', 1)[1]\<close> raises \<open>IndexError\<close>, which the exception clause turns into
  a 500 response, for every such request and whatever the libraries do.
\<close>

theorem no_dot_filename_fails:
  assumes "req_files req (str ''file'') = Some upl" and "upload_filename upl \<noteq> []"
    and "file_save fs (staged_path env upl) (upload_body upl) = Inr fs1"
    and "dot \<notin> set (staged_filename env upl)"
  shows "process env now req fs = (ServerError IndexError, fs(staged_path env upl := None))"
proof -
  have fs1: "fs1 = fs(staged_path env upl \<mapsto> upload_body upl)"
    using assms(3) by (rule file_save_Inr)
  show ?thesis
    unfolding process_staged [OF assms(1-3)]
              process_try_error [OF dispatch_no_dot [OF assms(4)]]
    by (simp add: fs1 cleanup_staged)
qed

theorem no_dot_filename_fails_witness:
  "req_files (upload_request (str ''README'') (ascii_bytes ''Hello World'') (str ''txt''))
     (str ''file'') =
     Some \<lparr>upload_filename = str ''README'', upload_body = ascii_bytes ''Hello World''\<rparr> \<and>
   str ''README'' \<noteq> [] \<and>
   file_save Map.empty (str ''uploads/README'') (ascii_bytes ''Hello World'') =
     Inr [str ''uploads/README'' \<mapsto> ascii_bytes ''Hello World''] \<and>
   dot \<notin> set (str ''README'') \<and>
   utf8_decode (ascii_bytes ''Hello World'') = Some (str ''Hello World'') \<and>
   process sample_env sample_time
     (upload_request (str ''README'') (ascii_bytes ''Hello World'') (str ''txt'')) Map.empty =
     (ServerError IndexError, Map.empty(str ''uploads/README'' := None))"
proof -
  let ?u = "\<lparr>upload_filename = str ''README'', upload_body = ascii_bytes ''Hello World''\<rparr>"
  let ?r = "upload_request (str ''README'') (ascii_bytes ''Hello World'') (str ''txt'')"
  have h1: "req_files ?r (str ''file'') = Some ?u" by (rule upload_request_file)
  have h2: "upload_filename ?u \<noteq> []" by (simp add: str_def)
  have h3: "file_save Map.empty (staged_path sample_env ?u) (upload_body ?u) =
              Inr [str ''uploads/README'' \<mapsto> ascii_bytes ''Hello World'']"
    by (simp add: staged_path_readme file_save_def) (simp add: str_def slash_def)
  have h4: "dot \<notin> set (staged_filename sample_env ?u)"
    by (simp add: staged_readme) (simp add: str_def dot_def)
  from no_dot_filename_fails [OF h1 h2 h3 h4, of sample_time] h1 h2 h3 h4 decode_hello
  show ?thesis by (simp add: staged_readme staged_path_readme)
qed

section \<open>The PDF Page Resolver\<close>

lemma ocr_images_collect:
  "ocr_images env lang imgs acc =
     (case collect (map (\<lambda>img. extract_ocr env (preprocess_image env img) lang) imgs) of
        Inl e \<Rightarrow> Inl e
      | Inr outputs \<Rightarrow> Inr (acc @ concat (map (\<lambda>t. t @ [nl]) outputs)))"
proof (induction imgs arbitrary: acc)
  case Nil
  then show ?case by simp
next
  case (Cons img imgs)
  show ?case
  proof (cases "extract_ocr env (preprocess_image env img) lang")
    case (Inl e)
    then show ?thesis by simp
  next
    case (Inr t)
    then show ?thesis by (simp add: Cons.IH split: sum.splits)
  qed
qed

lemma py_strip_Nil: "py_strip [] = []"
  by (simp add: py_strip_def)

lemma usable_text_Some:
  "usable_text content = Some c \<longleftrightarrow> content = Some c \<and> 20 < length (py_strip c)"
  by (auto simp: usable_text_def py_strip_Nil split: option.splits)

lemma usable_text_None:
  "usable_text content = None \<longleftrightarrow> (\<forall>c. content = Some c \<longrightarrow> \<not> 20 < length (py_strip c))"
  by (auto simp: usable_text_def py_strip_Nil split: option.splits)

lemma has_text_layer_iff:
  "extract_text p = Inr content \<Longrightarrow> has_text_layer p \<longleftrightarrow> usable_text content \<noteq> None"
  by (auto simp: has_text_layer_def usable_text_def py_strip_Nil split: option.splits)

lemma contribution_text:
  "extract_text p = Inr content \<Longrightarrow> usable_text content = Some c \<Longrightarrow>
   page_contribution env fs path lang p = Inr (c @ [nl])"
  by (simp add: page_contribution_def usable_text_Some)

lemma contribution_ocr:
  "extract_text p = Inr content \<Longrightarrow> usable_text content = None \<Longrightarrow>
   page_contribution env fs path lang p = ocr_page env fs path lang p"
  by (auto simp: page_contribution_def usable_text_None split: option.splits)

lemma contribution_error:
  "extract_text p = Inl e \<Longrightarrow> page_contribution env fs path lang p = Inl e"
  by (simp add: page_contribution_def)

lemma ocr_page_images:
  "on_file fs path (\<lambda>b. convert_from_path env b (page_number p) (page_number p)) = Inr imgs \<Longrightarrow>
   ocr_images env lang imgs acc =
     (case ocr_page env fs path lang p of Inl e \<Rightarrow> Inl e | Inr t \<Rightarrow> Inr (acc @ t))"
  by (simp add: ocr_images_collect ocr_page_def split: sum.splits)

lemma ocr_page_no_images:
  "on_file fs path (\<lambda>b. convert_from_path env b (page_number p) (page_number p)) = Inl e \<Longrightarrow>
   ocr_page env fs path lang p = Inl e"
  by (simp add: ocr_page_def)

lemma pdf_pages_loop_result:
  "snd (pdf_pages_loop env fs path lang pages log acc) =
     (case collect (map (page_contribution env fs path lang) pages) of
        Inl e \<Rightarrow> Inl e
      | Inr cs \<Rightarrow> Inr (acc @ concat cs))"
proof (induction pages arbitrary: log acc)
  case Nil
  then show ?case by simp
next
  case (Cons p pages)
  show ?case
  proof (cases "extract_text p")
    case (Inl e)
    then show ?thesis by (simp add: contribution_error)
  next
    case (Inr content)
    show ?thesis
    proof (cases "usable_text content")
      case (Some c)
      then show ?thesis
        using Inr by (simp add: contribution_text Cons.IH split: sum.splits)
    next
      case None
      note c = contribution_ocr [OF Inr None]
      show ?thesis
      proof (cases "on_file fs path
               (\<lambda>b. convert_from_path env b (page_number p) (page_number p))")
        case (Inl e)
        then show ?thesis
          using Inr None by (simp add: c ocr_page_no_images Let_def)
      next
        case r: (Inr imgs)
        show ?thesis
          using Inr None r
          by (simp add: c ocr_page_images [OF r] Let_def Cons.IH split: sum.splits)
      qed
    qed
  qed
qed

lemma pdf_pages_loop_log:
  "snd (pdf_pages_loop env fs path lang pages log acc) = Inr t \<Longrightarrow>
   fst (pdf_pages_loop env fs path lang pages log acc) =
     log @ map (\<lambda>p. (page_number p, page_number p)) (filter (\<lambda>p. \<not> has_text_layer p) pages)"
proof (induction pages arbitrary: log acc)
  case Nil
  then show ?case by simp
next
  case (Cons p pages)
  show ?case
  proof (cases "extract_text p")
    case (Inl e)
    with Cons.prems show ?thesis by simp
  next
    case (Inr content)
    show ?thesis
    proof (cases "usable_text content")
      case (Some c)
      then have h: "has_text_layer p" using has_text_layer_iff [OF Inr] by simp
      from Cons.prems Inr Some
      have "snd (pdf_pages_loop env fs path lang pages log (acc @ c @ [nl])) = Inr t"
        by simp
      from Cons.IH [OF this] show ?thesis using Inr Some h by simp
    next
      case None
      then have h: "\<not> has_text_layer p" using has_text_layer_iff [OF Inr] by simp
      show ?thesis
      proof (cases "on_file fs path
               (\<lambda>b. convert_from_path env b (page_number p) (page_number p))")
        case (Inl e)
        with Cons.prems Inr None show ?thesis by (simp add: Let_def)
      next
        case r: (Inr imgs)
        show ?thesis
        proof (cases "ocr_images env lang imgs acc")
          case (Inl e)
          with Cons.prems Inr None r show ?thesis by (simp add: Let_def)
        next
          case o: (Inr acc')
          from Cons.prems Inr None r o
          have "snd (pdf_pages_loop env fs path lang pages
                       (log @ [(page_number p, page_number p)]) acc') = Inr t"
            by (simp add: Let_def)
          from Cons.IH [OF this] show ?thesis using Inr None r o h by (simp add: Let_def)
        qed
      qed
    qed
  qed
qed

text \<open>
  Claim C1. \<open>process_pdf\<close> visits the pages of the opened PDF in document order. A page
  whose extracted text is present and, trimmed of whitespace, longer than 20 characters
  contributes that text, untrimmed, and a newline, and is not rasterized. Any other page
  (also one without extracted text) is rasterized alone, and each image obtained, one for
  a page, is pre-processed and given to OCR, whose output and a newline are the page's
  contribution. The result is the concatenation of the contributions in page order; the
  first exception raised on the way is the outcome instead. When a result is returned,
  the calls of the rasterizer were exactly one for each page without a usable text layer,
  in page order.
\<close>

theorem process_pdf_page_order:
  assumes "on_file fs path (pdfplumber_pages env) = Inr pages"
  shows "snd (process_pdf env fs path lang) =
           (case collect (map (page_contribution env fs path lang) pages) of
              Inl e \<Rightarrow> Inl e
            | Inr cs \<Rightarrow> Inr (concat cs)) \<and>
         (\<forall>t. snd (process_pdf env fs path lang) = Inr t \<longrightarrow>
              fst (process_pdf env fs path lang) =
                map (\<lambda>p. (page_number p, page_number p))
                  (filter (\<lambda>p. \<not> has_text_layer p) pages)) \<and>
         (\<forall>p c. extract_text p = Inr (Some c) \<and> 20 < length (py_strip c) \<longrightarrow>
              has_text_layer p \<and> page_contribution env fs path lang p = Inr (c @ [nl])) \<and>
         (\<forall>p content img.
              extract_text p = Inr content \<and> \<not> has_text_layer p \<and>
              on_file fs path (\<lambda>b. convert_from_path env b (page_number p) (page_number p)) =
                Inr [img] \<longrightarrow>
              page_contribution env fs path lang p =
                (case extract_ocr env (preprocess_image env img) lang of
                   Inl e \<Rightarrow> Inl e
                 | Inr t \<Rightarrow> Inr (t @ [nl])))"
proof (intro conjI allI impI)
  show "snd (process_pdf env fs path lang) =
           (case collect (map (page_contribution env fs path lang) pages) of
              Inl e \<Rightarrow> Inl e
            | Inr cs \<Rightarrow> Inr (concat cs))"
    using assms by (simp add: process_pdf_def pdf_pages_loop_result split: sum.splits)
next
  fix t assume "snd (process_pdf env fs path lang) = Inr t"
  then have "snd (pdf_pages_loop env fs path lang pages [] []) = Inr t"
    using assms by (simp add: process_pdf_def)
  from pdf_pages_loop_log [OF this]
  show "fst (process_pdf env fs path lang) =
          map (\<lambda>p. (page_number p, page_number p)) (filter (\<lambda>p. \<not> has_text_layer p) pages)"
    using assms by (simp add: process_pdf_def)
next
  fix p :: page and c
  assume "extract_text p = Inr (Some c) \<and> 20 < length (py_strip c)"
  then show "has_text_layer p" by (simp add: has_text_layer_def)
next
  fix p :: page and c
  assume "extract_text p = Inr (Some c) \<and> 20 < length (py_strip c)"
  then show "page_contribution env fs path lang p = Inr (c @ [nl])"
    by (simp add: page_contribution_def)
next
  fix p :: page and content img
  assume a: "extract_text p = Inr content \<and> \<not> has_text_layer p \<and>
              on_file fs path (\<lambda>b. convert_from_path env b (page_number p) (page_number p)) =
                Inr [img]"
  then have e: "extract_text p = Inr content" and n: "usable_text content = None"
    using has_text_layer_iff [of p content] by auto
  from a show "page_contribution env fs path lang p =
                (case extract_ocr env (preprocess_image env img) lang of
                   Inl e \<Rightarrow> Inl e
                 | Inr t \<Rightarrow> Inr (t @ [nl]))"
    by (simp add: contribution_ocr [OF e n] ocr_page_def split: sum.splits)
qed

lemma sample_pdf_open:
  "on_file [str ''uploads/scan.pdf'' \<mapsto> ascii_bytes ''%PDF''] (str ''uploads/scan.pdf'')
     (pdfplumber_pages sample_env) = Inr sample_pages"
  by (simp add: on_file_def read_file_def sample_env_def ascii_bytes_def)

lemma sample_page_1:
  "page_contribution sample_env fs path lang
     \<lparr>page_number = k,
       extract_text = Inr (Some (str ''  Minutes of the annual general meeting  ''))\<rparr> =
   Inr (str ''  Minutes of the annual general meeting  '' @ [nl])"
  by (simp add: page_contribution_def py_strip_def py_isspace_def str_def)

lemma sample_page_2:
  "page_contribution sample_env [str ''uploads/scan.pdf'' \<mapsto> ascii_bytes ''%PDF'']
     (str ''uploads/scan.pdf'') lang
     \<lparr>page_number = k, extract_text = Inr (Some (str ''p. 2''))\<rparr> =
   Inr (str ''signed by hand'' @ [nl])"
proof -
  have s: "\<not> 20 < length (py_strip (str ''p. 2''))"
    by (simp add: py_strip_def py_isspace_def str_def)
  show ?thesis
    by (simp add: page_contribution_def s ocr_page_def on_file_def read_file_def)
       (simp add: sample_env_def extract_ocr_def preprocess_image_def)
qed

lemma sample_text_layers:
  "filter (\<lambda>p. \<not> has_text_layer p) sample_pages =
     [\<lparr>page_number = 2, extract_text = Inr (Some (str ''p. 2''))\<rparr>]"
  by (simp add: sample_pages_def has_text_layer_def py_strip_def py_isspace_def str_def)

theorem process_pdf_page_order_witness:
  "on_file [str ''uploads/scan.pdf'' \<mapsto> ascii_bytes ''%PDF''] (str ''uploads/scan.pdf'')
     (pdfplumber_pages sample_env) = Inr sample_pages \<and>
   process_pdf sample_env [str ''uploads/scan.pdf'' \<mapsto> ascii_bytes ''%PDF'']
     (str ''uploads/scan.pdf'') (str ''eng'') =
     ([(2, 2)],
      Inr (str ''  Minutes of the annual general meeting  '' @ [nl] @
           str ''signed by hand'' @ [nl])) \<and>
   extract_text (sample_pages ! 0) =
     Inr (Some (str ''  Minutes of the annual general meeting  '')) \<and>
   20 < length (py_strip (str ''  Minutes of the annual general meeting  '')) \<and>
   page_contribution sample_env [str ''uploads/scan.pdf'' \<mapsto> ascii_bytes ''%PDF'']
     (str ''uploads/scan.pdf'') (str ''eng'') (sample_pages ! 0) =
     Inr (str ''  Minutes of the annual general meeting  '' @ [nl]) \<and>
   extract_text (sample_pages ! 1) = Inr (Some (str ''p. 2'')) \<and>
   \<not> has_text_layer (sample_pages ! 1) \<and>
   on_file [str ''uploads/scan.pdf'' \<mapsto> ascii_bytes ''%PDF''] (str ''uploads/scan.pdf'')
     (\<lambda>b. convert_from_path sample_env b (page_number (sample_pages ! 1))
            (page_number (sample_pages ! 1))) = Inr [str ''signed by hand''] \<and>
   page_contribution sample_env [str ''uploads/scan.pdf'' \<mapsto> ascii_bytes ''%PDF'']
     (str ''uploads/scan.pdf'') (str ''eng'') (sample_pages ! 1) =
     (case extract_ocr sample_env (preprocess_image sample_env (str ''signed by hand''))
             (str ''eng'') of
        Inl e \<Rightarrow> Inl e
      | Inr t \<Rightarrow> Inr (t @ [nl]))"
proof -
  let ?fs = "[str ''uploads/scan.pdf'' \<mapsto> ascii_bytes ''%PDF'']"
  let ?r = "process_pdf sample_env ?fs (str ''uploads/scan.pdf'') (str ''eng'')"
  note t = process_pdf_page_order [OF sample_pdf_open, of "str ''eng''"]
  from t have "snd ?r =
      (case collect (map (page_contribution sample_env ?fs (str ''uploads/scan.pdf'')
                            (str ''eng'')) sample_pages) of
         Inl e \<Rightarrow> Inl e | Inr cs \<Rightarrow> Inr (concat cs))"
    by blast
  then have s: "snd ?r = Inr (str ''  Minutes of the annual general meeting  '' @ [nl] @
           str ''signed by hand'' @ [nl])"
    by (simp add: sample_pages_def sample_page_1 sample_page_2)
  from t s have "fst ?r = map (\<lambda>p. (page_number p, page_number p))
                  (filter (\<lambda>p. \<not> has_text_layer p) sample_pages)"
    by blast
  then have "fst ?r = [(2, 2)]" by (simp add: sample_text_layers)
  with s have r: "?r = ([(2, 2)], Inr (str ''  Minutes of the annual general meeting  '' @ [nl] @
           str ''signed by hand'' @ [nl]))"
    by (simp add: prod_eq_iff)
  have e1: "extract_text (sample_pages ! 0) =
     Inr (Some (str ''  Minutes of the annual general meeting  ''))"
    by (simp add: sample_pages_def)
  have l1: "20 < length (py_strip (str ''  Minutes of the annual general meeting  ''))"
    by (simp add: py_strip_def py_isspace_def str_def)
  from t e1 l1 have c1: "page_contribution sample_env ?fs (str ''uploads/scan.pdf'') (str ''eng'')
      (sample_pages ! 0) = Inr (str ''  Minutes of the annual general meeting  '' @ [nl])"
    by blast
  have e2: "extract_text (sample_pages ! 1) = Inr (Some (str ''p. 2''))"
    by (simp add: sample_pages_def)
  have l2: "\<not> has_text_layer (sample_pages ! 1)"
    by (simp add: sample_pages_def has_text_layer_def py_strip_def py_isspace_def str_def)
  have o2: "on_file ?fs (str ''uploads/scan.pdf'')
     (\<lambda>b. convert_from_path sample_env b (page_number (sample_pages ! 1))
            (page_number (sample_pages ! 1))) = Inr [str ''signed by hand'']"
    by (simp add: on_file_def read_file_def sample_env_def)
  from t e2 l2 o2 have c2: "page_contribution sample_env ?fs (str ''uploads/scan.pdf'')
      (str ''eng'') (sample_pages ! 1) =
     (case extract_ocr sample_env (preprocess_image sample_env (str ''signed by hand''))
             (str ''eng'') of
        Inl e \<Rightarrow> Inl e
      | Inr t \<Rightarrow> Inr (t @ [nl]))"
    by blast
  from sample_pdf_open r e1 l1 c1 e2 l2 o2 c2 show ?thesis by blast
qed

end
